theory Spec2Isabelle
  imports Main "HOL-Library.Word" "HOL-Library.Sublist"
begin

unbundle bit_operations_syntax

section \<open>Cells, rows and worksheets\<close>

text \<open>
  The program keeps every table in an .xlsx workbook and reads and writes it through
  openpyxl. A cell value is \<^verbatim>\<open>None\<close> (a blank cell), an integer (the identifiers
  written by \<^verbatim>\<open>add_record\<close>) or a string (everything typed into a form); the other
  types a workbook can hold (floats, dates, booleans) are never written by the program
  and are left out. A worksheet is the list of its rows, row 1 (the header) first, each
  row the list of its cells from column 1; \<^verbatim>\<open>ws.max_row\<close> is the number of rows and is
  1 for a sheet without cells, \<^verbatim>\<open>ws.max_column\<close> the length of the longest row.
\<close>

datatype cell = CNone | CInt int | CStr string

type_synonym row = "cell list"

type_synonym sheet = "row list"

datatype error = FileNotFoundError | PermissionError | IndexError | ValueError | TypeError
  | AttributeError

definition max_row :: "sheet \<Rightarrow> nat" where
  "max_row ws = max 1 (length ws)"

definition max_column :: "sheet \<Rightarrow> nat" where
  "max_column ws = foldr (\<lambda>r m. max (length r) m) ws 1"

definition pad_row :: "nat \<Rightarrow> row \<Rightarrow> row" where
  "pad_row n r = r @ replicate (n - length r) CNone"

text \<open>
  \<^verbatim>\<open>ws.iter_rows(min_row=2, values_only=True)\<close>: the rows below the header, each one a
  tuple of \<^verbatim>\<open>max_column\<close> values, blank cells as \<^verbatim>\<open>None\<close>.
\<close>

definition iter_rows :: "sheet \<Rightarrow> row list" where
  "iter_rows ws = map (pad_row (max_column ws)) (drop 1 ws)"

text \<open>\<^verbatim>\<open>ws.cell(row=r, column=c).value\<close>, rows and columns counted from 1.\<close>

definition cell_value :: "sheet \<Rightarrow> nat \<Rightarrow> nat \<Rightarrow> cell" where
  "cell_value ws r c =
     (if 1 \<le> r \<and> r \<le> length ws \<and> 1 \<le> c \<and> c \<le> length (ws ! (r - 1))
      then ws ! (r - 1) ! (c - 1) else CNone)"

text \<open>
  \<^verbatim>\<open>ws.cell(row=r, column=c, value=v)\<close>: the cell is created when it is not there, and
  openpyxl assigns the value only when it is not \<^verbatim>\<open>None\<close>.
\<close>

definition set_cell :: "sheet \<Rightarrow> nat \<Rightarrow> nat \<Rightarrow> cell \<Rightarrow> sheet" where
  "set_cell ws r c v =
     (let ws' = ws @ replicate (r - length ws) [];
          old = pad_row c (ws' ! (r - 1))
      in ws'[r - 1 := (if v = CNone then old else old[c - 1 := v])])"

text \<open>\<^verbatim>\<open>ws.append(r)\<close> writes the row below the last one.\<close>

definition append_row :: "sheet \<Rightarrow> row \<Rightarrow> sheet" where
  "append_row ws r = ws @ [r]"

text \<open>\<^verbatim>\<open>ws.delete_rows(idx)\<close> removes row \<open>idx\<close> (from 1); the rows below move up.\<close>

definition delete_rows :: "sheet \<Rightarrow> nat \<Rightarrow> sheet" where
  "delete_rows ws idx = take (idx - 1) ws @ drop idx ws"

text \<open>
  The first value of a row that \<^verbatim>\<open>iter_rows\<close> yields (\<^verbatim>\<open>row[0]\<close>); such a row
  has at least one value, since \<^verbatim>\<open>max_column\<close> is at least 1.
\<close>

definition col0 :: "row \<Rightarrow> cell" where
  "col0 r = (case r of [] \<Rightarrow> CNone | c # _ \<Rightarrow> c)"

definition py_index :: "'a list \<Rightarrow> nat \<Rightarrow> error + 'a" where
  "py_index xs i = (if i < length xs then Inr (xs ! i) else Inl IndexError)"

section \<open>Python strings\<close>

definition digit_chr :: "nat \<Rightarrow> char" where
  "digit_chr n = char_of (48 + n)"

function digits :: "nat \<Rightarrow> string" where
  "digits n = (if n < 10 then [digit_chr n] else digits (n div 10) @ [digit_chr (n mod 10)])"
  by pat_completeness auto
termination
  by (relation "measure (\<lambda>n. n)") auto

declare digits.simps [simp del]

definition str_int :: "int \<Rightarrow> string" where
  "str_int i = (if i < 0 then CHR ''-'' # digits (nat (- i)) else digits (nat i))"

text \<open>\<^verbatim>\<open>str(cell)\<close>.\<close>

fun py_str :: "cell \<Rightarrow> string" where
  "py_str CNone = ''None''"
| "py_str (CInt i) = str_int i"
| "py_str (CStr s) = s"

text \<open>
  \<^verbatim>\<open>str.lower()\<close> on code points below 256: the letters A to Z and the accented capitals
  U+00C0 to U+00DE (the multiplication sign U+00D7 apart) move up by 32.
\<close>

definition lower_chr :: "char \<Rightarrow> char" where
  "lower_chr c = (let n = (of_char c :: nat) in
     if (65 \<le> n \<and> n \<le> 90) \<or> (192 \<le> n \<and> n \<le> 222 \<and> n \<noteq> 215) then char_of (n + 32) else c)"

definition lower :: "string \<Rightarrow> string" where
  "lower s = map lower_chr s"

text \<open>
  \<^verbatim>\<open>str.isdigit()\<close> on code points below 256: the decimal digits and the superscripts
  U+00B2, U+00B3, U+00B9, which \<^verbatim>\<open>int()\<close> refuses.
\<close>

definition ascii_digit :: "char \<Rightarrow> bool" where
  "ascii_digit c = (let n = (of_char c :: nat) in 48 \<le> n \<and> n \<le> 57)"

definition isdigit_chr :: "char \<Rightarrow> bool" where
  "isdigit_chr c = (let n = (of_char c :: nat) in
     (48 \<le> n \<and> n \<le> 57) \<or> n = 178 \<or> n = 179 \<or> n = 185)"

definition isdigit :: "string \<Rightarrow> bool" where
  "isdigit s = (s \<noteq> [] \<and> list_all isdigit_chr s)"

text \<open>
  \<^verbatim>\<open>int(cell)\<close>, as the program calls it: on a value whose \<^verbatim>\<open>str\<close> passed
  \<^verbatim>\<open>isdigit\<close> (so signs, spaces and underscores do not occur). The interpreter's
  limit on the number of digits of a conversion is not modelled.
\<close>

fun py_int :: "cell \<Rightarrow> error + int" where
  "py_int CNone = Inl TypeError"
| "py_int (CInt i) = Inr i"
| "py_int (CStr s) =
     (if s \<noteq> [] \<and> list_all ascii_digit s
      then Inr (int (foldl (\<lambda>a c. 10 * a + (of_char c - 48)) 0 s))
      else Inl ValueError)"

text \<open>\<^verbatim>\<open>sub in s\<close> on strings: \<open>sub\<close> occurs in \<open>s\<close> as a contiguous piece.\<close>

fun py_in :: "string \<Rightarrow> string \<Rightarrow> bool" where
  "py_in sub [] = (sub = [])"
| "py_in sub (c # cs) = (prefix sub (c # cs) \<or> py_in sub cs)"

section \<open>The credential hash: SHA-256, as a hexadecimal string\<close>

type_synonym w32 = "32 word"

definition rotr :: "nat \<Rightarrow> w32 \<Rightarrow> w32" where
  "rotr n x = (drop_bit n x) OR (push_bit (32 - n) x)"

definition Ch :: "w32 \<Rightarrow> w32 \<Rightarrow> w32 \<Rightarrow> w32" where
  "Ch x y z = (x AND y) XOR (NOT x AND z)"

definition Maj :: "w32 \<Rightarrow> w32 \<Rightarrow> w32 \<Rightarrow> w32" where
  "Maj x y z = (x AND y) XOR (x AND z) XOR (y AND z)"

definition Sigma0 :: "w32 \<Rightarrow> w32" where
  "Sigma0 x = rotr 2 x XOR rotr 13 x XOR rotr 22 x"

definition Sigma1 :: "w32 \<Rightarrow> w32" where
  "Sigma1 x = rotr 6 x XOR rotr 11 x XOR rotr 25 x"

definition sigma0 :: "w32 \<Rightarrow> w32" where
  "sigma0 x = rotr 7 x XOR rotr 18 x XOR drop_bit 3 x"

definition sigma1 :: "w32 \<Rightarrow> w32" where
  "sigma1 x = rotr 17 x XOR rotr 19 x XOR drop_bit 10 x"

text \<open>
  The round constants: the first 32 bits of the fractional parts of the cube roots of the
  first 64 primes, in decimal.
\<close>

definition K256 :: "w32 list" where
  "K256 = [
    1116352408, 1899447441, 3049323471, 3921009573, 961987163, 1508970993,
    2453635748, 2870763221, 3624381080, 310598401, 607225278, 1426881987,
    1925078388, 2162078206, 2614888103, 3248222580, 3835390401, 4022224774,
    264347078, 604807628, 770255983, 1249150122, 1555081692, 1996064986,
    2554220882, 2821834349, 2952996808, 3210313671, 3336571891, 3584528711,
    113926993, 338241895, 666307205, 773529912, 1294757372, 1396182291,
    1695183700, 1986661051, 2177026350, 2456956037, 2730485921, 2820302411,
    3259730800, 3345764771, 3516065817, 3600352804, 4094571909, 275423344,
    430227734, 506948616, 659060556, 883997877, 958139571, 1322822218,
    1537002063, 1747873779, 1955562222, 2024104815, 2227730452, 2361852424,
    2428436474, 2756734187, 3204031479, 3329325298]"

type_synonym hstate = "w32 \<times> w32 \<times> w32 \<times> w32 \<times> w32 \<times> w32 \<times> w32 \<times> w32"

definition H256 :: hstate where
  "H256 = (1779033703, 3144134277, 1013904242, 2773480762, 1359893119, 2600822924, 528734635, 1541459225)"

text \<open>
  \<^verbatim>\<open>pw.encode()\<close> is UTF-8. A Python string is modelled as a \<^typ>\<open>string\<close> whose
  characters are the code points below 256 (Latin-1, which covers every literal of the
  program): a code point below 128 is one byte, the others are two.
\<close>

definition encode_chr :: "char \<Rightarrow> nat list" where
  "encode_chr c = (let n = of_char c in
     if n < 128 then [n] else [192 + n div 64, 128 + n mod 64])"

definition encode :: "string \<Rightarrow> nat list" where
  "encode s = concat (map encode_chr s)"

fun be_bytes :: "nat \<Rightarrow> nat \<Rightarrow> nat list" where
  "be_bytes 0 n = []"
| "be_bytes (Suc k) n = be_bytes k (n div 256) @ [n mod 256]"

definition pad_message :: "nat list \<Rightarrow> nat list" where
  "pad_message m = m @ [128] @ replicate ((119 - length m mod 64) mod 64) 0
                     @ be_bytes 8 (8 * length m)"

fun word_of_bytes :: "nat list \<Rightarrow> w32" where
  "word_of_bytes bs = foldl (\<lambda>acc b. push_bit 8 acc + of_nat b) 0 bs"

fun words_of :: "nat \<Rightarrow> nat list \<Rightarrow> w32 list" where
  "words_of 0 bs = []"
| "words_of (Suc k) bs = word_of_bytes (take 4 bs) # words_of k (drop 4 bs)"

fun schedule :: "nat \<Rightarrow> w32 list \<Rightarrow> w32 list" where
  "schedule 0 w = w"
| "schedule (Suc k) w =
     (let n = length w in
      schedule k (w @ [sigma1 (w ! (n - 2)) + w ! (n - 7) + sigma0 (w ! (n - 15)) + w ! (n - 16)]))"

definition round256 :: "hstate \<Rightarrow> w32 \<times> w32 \<Rightarrow> hstate" where
  "round256 st kw = (case st of (a, b, c, d, e, f, g, h) \<Rightarrow>
     (let t1 = h + Sigma1 e + Ch e f g + fst kw + snd kw;
          t2 = Sigma0 a + Maj a b c
      in (t1 + t2, a, b, c, d + t1, e, f, g)))"

definition add_state :: "hstate \<Rightarrow> hstate \<Rightarrow> hstate" where
  "add_state s t = (case s of (a, b, c, d, e, f, g, h) \<Rightarrow>
     (case t of (a', b', c', d', e', f', g', h') \<Rightarrow>
       (a + a', b + b', c + c', d + d', e + e', f + f', g + g', h + h')))"

definition compress :: "hstate \<Rightarrow> nat list \<Rightarrow> hstate" where
  "compress st block =
     add_state st (foldl round256 st (zip K256 (schedule 48 (words_of 16 block))))"

fun blocks :: "nat \<Rightarrow> hstate \<Rightarrow> nat list \<Rightarrow> hstate" where
  "blocks 0 st bs = st"
| "blocks (Suc k) st bs = blocks k (compress st (take 64 bs)) (drop 64 bs)"

definition sha256 :: "nat list \<Rightarrow> hstate" where
  "sha256 m = (let p = pad_message m in blocks (length p div 64) H256 p)"

definition hex_digit :: "nat \<Rightarrow> char" where
  "hex_digit n = ''0123456789abcdef'' ! (n mod 16)"

definition hex32 :: "w32 \<Rightarrow> string" where
  "hex32 w = map (\<lambda>i. hex_digit (unat (drop_bit (4 * i) w))) (rev [0..<8])"

definition hexdigest :: "hstate \<Rightarrow> string" where
  "hexdigest st = (case st of (a, b, c, d, e, f, g, h) \<Rightarrow>
     hex32 a @ hex32 b @ hex32 c @ hex32 d @ hex32 e @ hex32 f @ hex32 g @ hex32 h)"

definition hash_password :: "string \<Rightarrow> string" where
  "hash_password pw = hexdigest (sha256 (encode pw))"

section \<open>Files and the state of the application\<close>

text \<open>
  The workbooks on disk: a file name maps to the sheet it holds and to whether the file
  can be written (a workbook open in another program cannot). \<^verbatim>\<open>load_workbook\<close>
  raises \<^verbatim>\<open>FileNotFoundError\<close> for a missing file; \<^verbatim>\<open>wb.save\<close> creates or
  replaces the file and raises \<^verbatim>\<open>PermissionError\<close> when it cannot be written.
  A sheet that was saved is loaded again as it was saved: the values openpyxl refuses
  or alters on the way (texts with control characters, the empty text, integers from
  2^53 on, trailing blank rows) are outside the model.
\<close>

datatype disk_file = File (content: sheet) (writable: bool)

type_synonym files = "string \<rightharpoonup> disk_file"

definition load_workbook :: "files \<Rightarrow> string \<Rightarrow> error + sheet" where
  "load_workbook fs name =
     (case fs name of None \<Rightarrow> Inl FileNotFoundError | Some f \<Rightarrow> Inr (content f))"

definition save :: "files \<Rightarrow> string \<Rightarrow> sheet \<Rightarrow> error + files" where
  "save fs name ws =
     (case fs name of
        None \<Rightarrow> Inr (fs(name \<mapsto> File ws True))
      | Some f \<Rightarrow> if writable f then Inr (fs(name \<mapsto> File ws True)) else Inl PermissionError)"

text \<open>The message boxes of the program, named after their titles.\<close>

datatype message = LogErro | ErroDeLogin | ErroCritico | Erro | ErroAoSalvar
  | NenhumaSelecao | ErroAoExcluir

text \<open>
  What a call changes: the files, the lines of the window's tree view (the values handed
  to \<^verbatim>\<open>tree.insert\<close>, in order) and the message boxes shown so far. A call completes
  or lets an exception escape. What the user enters is a parameter of the call: the texts
  of the login form, the query, the selected line, the answer to a confirmation, and the
  result of the record dialog (whose own check for empty fields is not part of the model).
\<close>

record state =
  files :: files
  tree :: "row list"
  shown :: "message list"

datatype outcome = Completed | Raised error

definition showmsg :: "message \<Rightarrow> state \<Rightarrow> state" where
  "showmsg m s = s\<lparr>shown := shown s @ [m]\<rparr>"

text \<open>\<^verbatim>\<open>except Exception\<close> around a block: the message box, and the call completes.\<close>

definition catch_all :: "message \<Rightarrow> outcome \<times> state \<Rightarrow> outcome \<times> state" where
  "catch_all m r =
     (case r of (Completed, s) \<Rightarrow> (Completed, s) | (Raised e, s) \<Rightarrow> (Completed, showmsg m s))"

section \<open>Constants\<close>

definition VISITORS_FILE :: string where "VISITORS_FILE = ''visitantes.xlsx''"
definition USERS_FILE :: string where "USERS_FILE = ''usuarios.xlsx''"
definition LOG_FILE :: string where "LOG_FILE = ''logs.xlsx''"




definition USERS_HEADERS :: "string list" where
  "USERS_HEADERS = [''Usu'' @ [CHR 0xE1] @ ''rio'', ''SenhaHash'',
     ''Permiss'' @ [CHR 0xE3] @ ''o'']"

definition LOG_HEADERS :: "string list" where
  "LOG_HEADERS = [''Usu'' @ [CHR 0xE1] @ ''rio'', ''A'' @ [CHR 0xE7, CHR 0xE3] @ ''o'',
     ''DataHora'']"

section \<open>Setup and the log\<close>



definition admin_row :: row where
  "admin_row = [CStr ''admin'', CStr (hash_password ''admin''), CStr ''admin'']"


text \<open>
  \<^verbatim>\<open>log_action(usuario, acao)\<close>; \<open>now\<close> is the text of
  \<^verbatim>\<open>datetime.now().strftime("%d/%m/%Y %H:%M:%S")\<close>. Only \<^verbatim>\<open>FileNotFoundError\<close> is
  caught.
\<close>

definition log_action :: "string \<Rightarrow> string \<Rightarrow> string \<Rightarrow> state \<Rightarrow> outcome \<times> state" where
  "log_action now usuario acao s =
     (case (case load_workbook (files s) LOG_FILE of
              Inl e \<Rightarrow> Inl e
            | Inr ws \<Rightarrow> save (files s) LOG_FILE (append_row ws [CStr usuario, CStr acao, CStr now])) of
        Inr fs' \<Rightarrow> (Completed, s\<lparr>files := fs'\<rparr>)
      | Inl FileNotFoundError \<Rightarrow> (Completed, showmsg LogErro s)
      | Inl e \<Rightarrow> (Raised e, s))"

section \<open>LoginWindow\<close>

text \<open>
  The result of \<^verbatim>\<open>attempt_login\<close>: \<^verbatim>\<open>on_success(usuario, permissao)\<close> was called,
  or the method returned after an error box, or an exception escaped.
\<close>

datatype login_result = Success string cell | NoSuccess | LoginRaised error

definition login_message :: string where
  "login_message = ''Login bem-sucedido''"

text \<open>The loop over the rows of the users sheet.\<close>

fun login_scan :: "row list \<Rightarrow> string \<Rightarrow> string \<Rightarrow> string \<Rightarrow> state \<Rightarrow> login_result \<times> state" where
  "login_scan [] now usuario senha s = (NoSuccess, showmsg ErroDeLogin s)"
| "login_scan (row # rows) now usuario senha s =
     (case py_index row 0 of
        Inl e \<Rightarrow> (LoginRaised e, s)
      | Inr c0 \<Rightarrow>
          if c0 \<noteq> CStr usuario then login_scan rows now usuario senha s
          else (case py_index row 1 of
                  Inl e \<Rightarrow> (LoginRaised e, s)
                | Inr c1 \<Rightarrow>
                    if c1 \<noteq> CStr (hash_password senha) then login_scan rows now usuario senha s
                    else (case log_action now usuario login_message s of
                            (Raised e, s') \<Rightarrow> (LoginRaised e, s')
                          | (Completed, s') \<Rightarrow>
                              (case py_index row 2 of
                                 Inl e \<Rightarrow> (LoginRaised e, s')
                               | Inr permissao \<Rightarrow> (Success usuario permissao, s')))))"

definition attempt_login :: "string \<Rightarrow> string \<Rightarrow> string \<Rightarrow> state \<Rightarrow> login_result \<times> state" where
  "attempt_login now usuario senha s =
     (case (case load_workbook (files s) USERS_FILE of
              Inl e \<Rightarrow> (LoginRaised e, s)
            | Inr ws \<Rightarrow> login_scan (iter_rows ws) now usuario senha s) of
        (LoginRaised FileNotFoundError, s') \<Rightarrow> (NoSuccess, showmsg ErroCritico s')
      | r \<Rightarrow> r)"

section \<open>DataWindow\<close>

definition placeholder :: string where
  "placeholder = ''********''"

text \<open>The line shown for a row: in the users window the second value is masked.\<close>

definition display_row :: "string \<Rightarrow> row \<Rightarrow> error + row" where
  "display_row filename r =
     (if filename = USERS_FILE
      then (if 1 < length r then Inr (r[1 := CStr placeholder]) else Inl IndexError)
      else Inr r)"

fun insert_rows :: "string \<Rightarrow> row list \<Rightarrow> state \<Rightarrow> outcome \<times> state" where
  "insert_rows filename [] s = (Completed, s)"
| "insert_rows filename (r # rs) s =
     (case display_row filename r of
        Inl e \<Rightarrow> (Raised e, s)
      | Inr d \<Rightarrow> insert_rows filename rs (s\<lparr>tree := tree s @ [d]\<rparr>))"

definition load_data :: "string \<Rightarrow> state \<Rightarrow> outcome \<times> state" where
  "load_data filename s =
     (let s1 = s\<lparr>tree := []\<rparr> in
      case load_workbook (files s1) filename of
        Inl FileNotFoundError \<Rightarrow> (Completed, showmsg Erro s1)
      | Inl e \<Rightarrow> (Raised e, s1)
      | Inr ws \<Rightarrow> insert_rows filename (iter_rows ws) s1)"

definition row_matches :: "string \<Rightarrow> row \<Rightarrow> bool" where
  "row_matches search_term r = list_ex (\<lambda>c. py_in search_term (lower (py_str c))) r"

text \<open>\<^verbatim>\<open>filter_tree\<close>; \<open>query\<close> is the text of the search box.\<close>

definition filter_tree :: "string \<Rightarrow> string \<Rightarrow> state \<Rightarrow> outcome \<times> state" where
  "filter_tree filename query s =
     (let search_term = lower query; s1 = s\<lparr>tree := []\<rparr> in
      case load_workbook (files s1) filename of
        Inl e \<Rightarrow> (Raised e, s1)
      | Inr ws \<Rightarrow> insert_rows filename (filter (row_matches search_term) (iter_rows ws)) s1)"

text \<open>The block "Gerar novo ID" of \<^verbatim>\<open>add_record\<close>.\<close>

definition new_id_for :: "sheet \<Rightarrow> error + int" where
  "new_id_for ws =
     (if max_row ws > 1
      then (let last_id = cell_value ws (max_row ws) 1 in
            if last_id \<noteq> CNone \<and> isdigit (py_str last_id)
            then (case py_int last_id of Inl e \<Rightarrow> Inl e | Inr n \<Rightarrow> Inr (n + 1))
            else Inr 1)
      else Inr 1)"

text \<open>\<^verbatim>\<open>hash_password(v)\<close> on a value of a row: only a string has \<^verbatim>\<open>encode\<close>.\<close>

fun hash_cell :: "cell \<Rightarrow> error + cell" where
  "hash_cell (CStr s) = Inr (CStr (hash_password s))"
| "hash_cell c = Inl AttributeError"

text \<open>
  The row that \<^verbatim>\<open>add_record\<close> appends; \<open>result\<close> is \<^verbatim>\<open>dialog.result\<close>, the texts
  of the form's fields (one for each header but the first).
\<close>

definition new_row_for :: "string \<Rightarrow> int \<Rightarrow> string list \<Rightarrow> error + row" where
  "new_row_for filename new_id result =
     (let new_row = CInt new_id # map CStr result in
      if filename = USERS_FILE
      then (case py_index new_row 2 of
              Inl e \<Rightarrow> Inl e
            | Inr v \<Rightarrow> (case hash_cell v of Inl e \<Rightarrow> Inl e | Inr h \<Rightarrow> Inr (new_row[2 := h])))
      else Inr new_row)"

text \<open>\<^verbatim>\<open>add_record\<close>; an empty \<open>result\<close> is a dialog closed without a result.\<close>

definition add_record :: "string \<Rightarrow> string list \<Rightarrow> state \<Rightarrow> outcome \<times> state" where
  "add_record filename result s =
     (if result = [] then (Completed, s)
      else catch_all ErroAoSalvar
        (case load_workbook (files s) filename of
           Inl e \<Rightarrow> (Raised e, s)
         | Inr ws \<Rightarrow>
            (case new_id_for ws of
               Inl e \<Rightarrow> (Raised e, s)
             | Inr new_id \<Rightarrow>
                (case new_row_for filename new_id result of
                   Inl e \<Rightarrow> (Raised e, s)
                 | Inr new_row \<Rightarrow>
                    (case save (files s) filename (append_row ws new_row) of
                       Inl e \<Rightarrow> (Raised e, s)
                     | Inr fs' \<Rightarrow> load_data filename (s\<lparr>files := fs'\<rparr>))))))"

text \<open>
  The search of \<^verbatim>\<open>edit_record\<close> and \<^verbatim>\<open>delete_record\<close> for the first row whose first
  value is \<open>record_id\<close>; \<open>i\<close> is the number of the row in the sheet.
\<close>

fun find_row :: "cell \<Rightarrow> row list \<Rightarrow> nat \<Rightarrow> nat option" where
  "find_row record_id [] i = None"
| "find_row record_id (r # rs) i =
     (if col0 r = record_id then Some i else find_row record_id rs (Suc i))"

definition updated_row_for :: "string \<Rightarrow> cell \<Rightarrow> string list \<Rightarrow> error + row" where
  "updated_row_for filename record_id result =
     (let updated_row = record_id # map CStr result in
      if filename = USERS_FILE
      then (case py_index result 1 of
              Inl e \<Rightarrow> Inl e
            | Inr v \<Rightarrow> if v \<noteq> placeholder then Inr (updated_row[2 := CStr (hash_password v)])
                       else Inr updated_row)
      else Inr updated_row)"

text \<open>The loop writing \<^verbatim>\<open>updated_row\<close> into the cells of row \<open>row_to_edit\<close>.\<close>

fun write_cells :: "sheet \<Rightarrow> nat \<Rightarrow> nat \<Rightarrow> row \<Rightarrow> sheet" where
  "write_cells ws row_to_edit col_num [] = ws"
| "write_cells ws row_to_edit col_num (v # vs) =
     write_cells (set_cell ws row_to_edit col_num v) row_to_edit (Suc col_num) vs"

text \<open>
  \<^verbatim>\<open>edit_record\<close>; \<open>selected\<close> is the first value of the selected line of the tree
  view (nothing when no line is selected).
\<close>

definition edit_record :: "string \<Rightarrow> cell option \<Rightarrow> string list \<Rightarrow> state \<Rightarrow> outcome \<times> state" where
  "edit_record filename selected result s =
     (case selected of
        None \<Rightarrow> (Completed, showmsg NenhumaSelecao s)
      | Some record_id \<Rightarrow>
         (case load_workbook (files s) filename of
            Inl e \<Rightarrow> (Raised e, s)
          | Inr ws \<Rightarrow>
             (case find_row record_id (iter_rows ws) 2 of
                None \<Rightarrow> (Completed, showmsg Erro s)
              | Some row_to_edit \<Rightarrow>
                 if result = [] then (Completed, s)
                 else catch_all ErroAoSalvar
                   (case updated_row_for filename record_id result of
                      Inl e \<Rightarrow> (Raised e, s)
                    | Inr updated_row \<Rightarrow>
                       (case save (files s) filename (write_cells ws row_to_edit 1 updated_row) of
                          Inl e \<Rightarrow> (Raised e, s)
                        | Inr fs' \<Rightarrow> load_data filename (s\<lparr>files := fs'\<rparr>))))))"

text \<open>\<^verbatim>\<open>delete_record\<close>; \<open>confirm\<close> is the answer to the confirmation box.\<close>

definition delete_record :: "string \<Rightarrow> cell option \<Rightarrow> bool \<Rightarrow> state \<Rightarrow> outcome \<times> state" where
  "delete_record filename selected confirm s =
     (case selected of
        None \<Rightarrow> (Completed, showmsg NenhumaSelecao s)
      | Some record_id \<Rightarrow>
         if \<not> confirm then (Completed, s)
         else catch_all ErroAoExcluir
           (case load_workbook (files s) filename of
              Inl e \<Rightarrow> (Raised e, s)
            | Inr ws \<Rightarrow>
               (case find_row record_id (iter_rows ws) 2 of
                  Some row_to_delete \<Rightarrow>
                    (case save (files s) filename (delete_rows ws row_to_delete) of
                       Inl e \<Rightarrow> (Raised e, s)
                     | Inr fs' \<Rightarrow> load_data filename (s\<lparr>files := fs'\<rparr>))
                | None \<Rightarrow> (Completed, showmsg Erro s))))"

section \<open>Repeated calls\<close>

text \<open>One \<^verbatim>\<open>add_record\<close> after the other in one window, one \<open>result\<close> each.\<close>

fun add_records :: "string \<Rightarrow> string list list \<Rightarrow> state \<Rightarrow> state" where
  "add_records filename [] s = s"
| "add_records filename (result # rest) s = add_records filename rest (snd (add_record filename result s))"

text \<open>The first column of the rows below the header, as \<^verbatim>\<open>iter_rows\<close> yields them.\<close>

definition ids_of :: "sheet \<Rightarrow> cell list" where
  "ids_of ws = map col0 (iter_rows ws)"

section \<open>Facts about the hash\<close>

lemma length_hash_password: "length (hash_password s) = 64"
  by (simp add: hash_password_def hexdigest_def hex32_def split: prod.splits)

section \<open>Initialization\<close>







section \<open>Rows and the tree view\<close>

lemma max_column_ge1: "1 \<le> max_column ws"
  unfolding max_column_def by (induction ws) auto

lemma max_column_ge_row: "r \<in> set ws \<Longrightarrow> length r \<le> max_column ws"
  unfolding max_column_def by (induction ws) auto

lemma length_pad_row: "length (pad_row n r) = max n (length r)"
  by (simp add: pad_row_def)

lemma length_iter_rows: "r \<in> set (iter_rows ws) \<Longrightarrow> length r = max_column ws"
proof -
  assume "r \<in> set (iter_rows ws)"
  then obtain r0 where r0: "r0 \<in> set (drop 1 ws)" and r: "r = pad_row (max_column ws) r0"
    by (auto simp: iter_rows_def)
  from r0 have "r0 \<in> set ws" by (rule in_set_dropD)
  then have "length r0 \<le> max_column ws" by (rule max_column_ge_row)
  with r show ?thesis by (simp add: length_pad_row)
qed

lemma col0_pad_row: "1 \<le> n \<Longrightarrow> col0 (pad_row n r) = col0 r"
  by (cases r; cases n) (simp_all add: col0_def pad_row_def)

lemma ids_of_raw: "ids_of ws = map col0 (drop 1 ws)"
  using max_column_ge1 [of ws] by (simp add: ids_of_def iter_rows_def col0_pad_row)

lemma insert_rows_ok:
  "(filename = USERS_FILE \<longrightarrow> (\<forall>r\<in>set rs. 1 < length r)) \<Longrightarrow>
   insert_rows filename rs s =
     (Completed, s\<lparr>tree := tree s @ map (\<lambda>r. if filename = USERS_FILE then r[1 := CStr placeholder] else r) rs\<rparr>)"
  by (induction rs arbitrary: s) (auto simp: display_row_def)

lemma insert_rows_users_masked:
  "\<forall>r\<in>set (tree s). 1 < length r \<and> r ! 1 = CStr placeholder \<Longrightarrow>
   \<forall>r\<in>set (tree (snd (insert_rows USERS_FILE rs s))). 1 < length r \<and> r ! 1 = CStr placeholder"
proof (induction rs arbitrary: s)
  case Nil
  then show ?case by simp
next
  case (Cons r rs)
  show ?case
  proof (cases "1 < length r")
    case True
    let ?s = "s\<lparr>tree := tree s @ [r[1 := CStr placeholder]]\<rparr>"
    from Cons.prems True
    have "\<forall>x\<in>set (tree ?s). 1 < length x \<and> x ! 1 = CStr placeholder"
      by simp
    then have "\<forall>x\<in>set (tree (snd (insert_rows USERS_FILE rs ?s))).
        1 < length x \<and> x ! 1 = CStr placeholder"
      by (rule Cons.IH)
    with True show ?thesis by (simp add: display_row_def)
  next
    case False
    with Cons.prems show ?thesis by (simp add: display_row_def)
  qed
qed

lemma insert_rows_files: "files (snd (insert_rows filename rs s)) = files s"
  by (induction rs arbitrary: s) (auto split: sum.splits)

lemma load_data_files: "files (snd (load_data filename s)) = files s"
  by (auto simp: load_data_def Let_def showmsg_def insert_rows_files split: sum.splits error.splits)

text \<open>
  Claim C6. In the users window \<^verbatim>\<open>load_data\<close> never shows the stored value of the
  SenhaHash column: whatever the files hold, every line of the tree view has the eight
  asterisks as its second value; and when the users workbook is there with at least two
  columns the call completes and shows every row, masked.
\<close>

theorem load_data_redacts_users:
  "(\<forall>r\<in>set (tree (snd (load_data USERS_FILE s))). 1 < length r \<and> r ! 1 = CStr ''********'')
   \<and> (files s USERS_FILE = Some f \<and> 2 \<le> max_column (content f) \<longrightarrow>
         load_data USERS_FILE s =
           (Completed, s\<lparr>tree := map (\<lambda>r. r[1 := CStr ''********'']) (iter_rows (content f))\<rparr>))"
proof (intro conjI impI)
  show "\<forall>r\<in>set (tree (snd (load_data USERS_FILE s))). 1 < length r \<and> r ! 1 = CStr ''********''"
  proof (cases "load_workbook (files s) USERS_FILE")
    case (Inl e)
    then show ?thesis
      by (cases e) (simp_all add: load_data_def Let_def showmsg_def)
  next
    case (Inr ws)
    have "\<forall>r\<in>set (tree (snd (insert_rows USERS_FILE (iter_rows ws) (s\<lparr>tree := []\<rparr>)))).
            1 < length r \<and> r ! 1 = CStr placeholder"
      by (rule insert_rows_users_masked) simp
    with Inr show ?thesis by (simp add: load_data_def Let_def placeholder_def)
  qed
next
  assume a: "files s USERS_FILE = Some f \<and> 2 \<le> max_column (content f)"
  then have "\<forall>r\<in>set (iter_rows (content f)). 1 < length r"
    by (auto dest: length_iter_rows)
  then have "insert_rows USERS_FILE (iter_rows (content f)) (s\<lparr>tree := []\<rparr>)
     = (Completed, s\<lparr>tree := [] @ map (\<lambda>r. r[1 := CStr placeholder]) (iter_rows (content f))\<rparr>)"
    by (subst insert_rows_ok) simp_all
  with a show "load_data USERS_FILE s =
           (Completed, s\<lparr>tree := map (\<lambda>r. r[1 := CStr ''********'']) (iter_rows (content f))\<rparr>)"
    by (simp add: load_data_def Let_def load_workbook_def placeholder_def)
qed

theorem load_data_redacts_users_witness:
  "load_data USERS_FILE
     \<lparr>files = [USERS_FILE \<mapsto> File [map CStr USERS_HEADERS, admin_row] True], tree = [], shown = []\<rparr>
   = (Completed,
      \<lparr>files = [USERS_FILE \<mapsto> File [map CStr USERS_HEADERS, admin_row] True],
       tree = [[CStr ''admin'', CStr ''********'', CStr ''admin'']], shown = []\<rparr>)"
  using load_data_redacts_users
    [of "\<lparr>files = [USERS_FILE \<mapsto> File [map CStr USERS_HEADERS, admin_row] True], tree = [], shown = []\<rparr>"
        "File [map CStr USERS_HEADERS, admin_row] True"]
  by (simp add: max_column_def iter_rows_def pad_row_def USERS_HEADERS_def admin_row_def)

section \<open>Login and the log\<close>

lemma log_action_ok:
  "files s LOG_FILE = Some lf \<Longrightarrow> writable lf \<Longrightarrow>
   log_action now usuario acao s =
     (Completed, s\<lparr>files := (files s)(LOG_FILE \<mapsto>
        File (content lf @ [[CStr usuario, CStr acao, CStr now]]) True)\<rparr>)"
  by (simp add: log_action_def load_workbook_def save_def append_row_def)

lemma log_action_missing:
  "files s LOG_FILE = None \<Longrightarrow> log_action now usuario acao s = (Completed, showmsg LogErro s)"
  by (simp add: log_action_def load_workbook_def)

lemma log_action_locked:
  "files s LOG_FILE = Some lf \<Longrightarrow> \<not> writable lf \<Longrightarrow>
   log_action now usuario acao s = (Raised PermissionError, s)"
  by (simp add: log_action_def load_workbook_def save_def)

lemma login_scan_find:
  "\<forall>r\<in>set rows. 3 \<le> length r \<Longrightarrow>
   login_scan rows now usuario senha s =
     (case find (\<lambda>r. r ! 0 = CStr usuario \<and> r ! 1 = CStr (hash_password senha)) rows of
        None \<Rightarrow> (NoSuccess, showmsg ErroDeLogin s)
      | Some r \<Rightarrow>
          (case log_action now usuario login_message s of
             (Raised e, s') \<Rightarrow> (LoginRaised e, s')
           | (Completed, s') \<Rightarrow> (Success usuario (r ! 2), s')))"
proof (induction rows)
  case Nil
  then show ?case by simp
next
  case (Cons r rows)
  then have len: "3 \<le> length r" and IH: "login_scan rows now usuario senha s =
     (case find (\<lambda>r. r ! 0 = CStr usuario \<and> r ! 1 = CStr (hash_password senha)) rows of
        None \<Rightarrow> (NoSuccess, showmsg ErroDeLogin s)
      | Some r \<Rightarrow>
          (case log_action now usuario login_message s of
             (Raised e, s') \<Rightarrow> (LoginRaised e, s')
           | (Completed, s') \<Rightarrow> (Success usuario (r ! 2), s')))"
    by simp_all
  from len have l0: "0 < length r" and l1: "1 < length r" and l2: "2 < length r"
    by linarith+
  show ?case
  proof (cases "r ! 0 = CStr usuario \<and> r ! 1 = CStr (hash_password senha)")
    case True
    then show ?thesis
      using l0 l1 l2 by (simp add: py_index_def split: prod.splits outcome.splits)
  next
    case False
    then show ?thesis
      using l0 l1 by (auto simp add: py_index_def IH)
  qed
qed

lemma rows_three_columns:
  "3 \<le> max_column ws \<Longrightarrow> \<forall>r\<in>set (iter_rows ws). 3 \<le> length r"
  by (auto dest: length_iter_rows)

lemma attempt_login_find:
  assumes "files s USERS_FILE = Some uf" and "3 \<le> max_column (content uf)"
    and "files s LOG_FILE = Some lf" and "writable lf"
  shows "attempt_login now usuario senha s =
     (case find (\<lambda>r. r ! 0 = CStr usuario \<and> r ! 1 = CStr (hash_password senha))
             (iter_rows (content uf)) of
        Some r \<Rightarrow>
          (Success usuario (r ! 2),
           s\<lparr>files := (files s)(LOG_FILE \<mapsto>
              File (content lf @ [[CStr usuario, CStr login_message, CStr now]]) True)\<rparr>)
      | None \<Rightarrow> (NoSuccess, showmsg ErroDeLogin s))"
proof -
  have rows: "\<forall>r\<in>set (iter_rows (content uf)). 3 \<le> length r"
    using assms(2) by (rule rows_three_columns)
  show ?thesis
    using assms(1)
    by (simp add: attempt_login_def load_workbook_def login_scan_find [OF rows]
        log_action_ok [OF assms(3,4)] split: option.splits)
qed

lemma attempt_login_none:
  assumes "files s USERS_FILE = Some uf" and "3 \<le> max_column (content uf)"
    and "find (\<lambda>r. r ! 0 = CStr usuario \<and> r ! 1 = CStr (hash_password senha))
             (iter_rows (content uf)) = None"
  shows "attempt_login now usuario senha s = (NoSuccess, showmsg ErroDeLogin s)"
proof -
  have rows: "\<forall>r\<in>set (iter_rows (content uf)). 3 \<le> length r"
    using assms(2) by (rule rows_three_columns)
  show ?thesis
    using assms(1,3)
    by (simp add: attempt_login_def load_workbook_def login_scan_find [OF rows])
qed

text \<open>
  Claim C7, as amended. With the users workbook (at least three columns) and a log
  workbook that exists and can be written,
  \<^verbatim>\<open>attempt_login\<close> succeeds exactly when a row below the header has the
  given user name as its first value and the hash of the given password as its second:
  the first such row decides, its third value is the permission handed to
  \<^verbatim>\<open>on_success\<close>, and exactly one line "Login bem-sucedido" for that user is added
  to the log. Without such a row the error box is shown and no file changes.
\<close>

theorem attempt_login_first_match:
  assumes "files s USERS_FILE = Some uf" and "3 \<le> max_column (content uf)"
    and "files s LOG_FILE = Some lf" and "writable lf"
  shows "attempt_login now usuario senha s =
     (case find (\<lambda>r. r ! 0 = CStr usuario \<and> r ! 1 = CStr (hash_password senha))
             (iter_rows (content uf)) of
        Some r \<Rightarrow>
          (Success usuario (r ! 2),
           s\<lparr>files := (files s)(LOG_FILE \<mapsto>
              File (content lf @ [[CStr usuario, CStr ''Login bem-sucedido'', CStr now]]) True)\<rparr>)
      | None \<Rightarrow> (NoSuccess, showmsg ErroDeLogin s))"
  by (rule attempt_login_find [OF assms, unfolded login_message_def])

theorem attempt_login_first_match_witness:
  "attempt_login ''04/11/2026 10:00:00'' ''admin'' ''admin''
     \<lparr>files = [USERS_FILE \<mapsto> File [map CStr USERS_HEADERS, admin_row] True,
               LOG_FILE \<mapsto> File [map CStr LOG_HEADERS] True], tree = [], shown = []\<rparr>
   = (Success ''admin'' (CStr ''admin''),
      \<lparr>files = [USERS_FILE \<mapsto> File [map CStr USERS_HEADERS, admin_row] True,
               LOG_FILE \<mapsto> File [map CStr LOG_HEADERS,
                 [CStr ''admin'', CStr ''Login bem-sucedido'', CStr ''04/11/2026 10:00:00'']] True],
       tree = [], shown = []\<rparr>)
   \<and> attempt_login ''04/11/2026 10:00:00'' ''nobody'' ''admin''
     \<lparr>files = [USERS_FILE \<mapsto> File [map CStr USERS_HEADERS, admin_row] True,
               LOG_FILE \<mapsto> File [map CStr LOG_HEADERS] True], tree = [], shown = []\<rparr>
   = (NoSuccess,
      \<lparr>files = [USERS_FILE \<mapsto> File [map CStr USERS_HEADERS, admin_row] True,
               LOG_FILE \<mapsto> File [map CStr LOG_HEADERS] True], tree = [], shown = [ErroDeLogin]\<rparr>)"
proof -
  let ?s = "\<lparr>files = [USERS_FILE \<mapsto> File [map CStr USERS_HEADERS, admin_row] True,
               LOG_FILE \<mapsto> File [map CStr LOG_HEADERS] True], tree = [], shown = []\<rparr>"
  have u: "files ?s USERS_FILE = Some (File [map CStr USERS_HEADERS, admin_row] True)"
    by (simp add: USERS_FILE_def LOG_FILE_def)
  have c: "3 \<le> max_column (content (File [map CStr USERS_HEADERS, admin_row] True))"
    by (simp add: max_column_def USERS_HEADERS_def admin_row_def)
  have l: "files ?s LOG_FILE = Some (File [map CStr LOG_HEADERS] True)"
    by simp
  have w: "writable (File [map CStr LOG_HEADERS] True)"
    by simp
  show ?thesis
    using attempt_login_first_match [OF u c l w, of "''04/11/2026 10:00:00''" "''admin''" "''admin''"]
      attempt_login_first_match [OF u c l w, of "''04/11/2026 10:00:00''" "''nobody''" "''admin''"]
    by (simp add: max_column_def iter_rows_def pad_row_def USERS_HEADERS_def admin_row_def
        showmsg_def)
qed

text \<open>
  Claim C8, as amended. When the log workbook is missing, \<^verbatim>\<open>log_action\<close> catches the
  failure and shows a warning, and the login that called it still completes with
  success. (Only \<^verbatim>\<open>FileNotFoundError\<close> is caught: see the counterexample below.)
\<close>

theorem log_action_missing_file_warns:
  assumes "files s LOG_FILE = None"
  shows "log_action now usuario acao s = (Completed, showmsg LogErro s)
    \<and> (files s USERS_FILE = Some uf \<and> 3 \<le> max_column (content uf)
        \<and> find (\<lambda>r. r ! 0 = CStr usuario \<and> r ! 1 = CStr (hash_password senha))
             (iter_rows (content uf)) = Some r
       \<longrightarrow> attempt_login now usuario senha s = (Success usuario (r ! 2), showmsg LogErro s))"
proof (intro conjI impI)
  show "log_action now usuario acao s = (Completed, showmsg LogErro s)"
    using assms by (rule log_action_missing)
next
  assume a: "files s USERS_FILE = Some uf \<and> 3 \<le> max_column (content uf)
        \<and> find (\<lambda>r. r ! 0 = CStr usuario \<and> r ! 1 = CStr (hash_password senha))
             (iter_rows (content uf)) = Some r"
  then have rows: "\<forall>r\<in>set (iter_rows (content uf)). 3 \<le> length r"
    by (intro rows_three_columns) simp
  from a show "attempt_login now usuario senha s = (Success usuario (r ! 2), showmsg LogErro s)"
    by (simp add: attempt_login_def load_workbook_def login_scan_find [OF rows]
        log_action_missing [OF assms])
qed

theorem log_action_missing_file_warns_witness:
  "log_action ''04/11/2026 10:00:00'' ''admin'' ''Logout''
     \<lparr>files = [USERS_FILE \<mapsto> File [map CStr USERS_HEADERS, admin_row] True], tree = [], shown = []\<rparr>
   = (Completed,
      \<lparr>files = [USERS_FILE \<mapsto> File [map CStr USERS_HEADERS, admin_row] True], tree = [],
       shown = [LogErro]\<rparr>)
   \<and> attempt_login ''04/11/2026 10:00:00'' ''admin'' ''admin''
     \<lparr>files = [USERS_FILE \<mapsto> File [map CStr USERS_HEADERS, admin_row] True], tree = [], shown = []\<rparr>
   = (Success ''admin'' (CStr ''admin''),
      \<lparr>files = [USERS_FILE \<mapsto> File [map CStr USERS_HEADERS, admin_row] True], tree = [],
       shown = [LogErro]\<rparr>)"
proof -
  let ?s = "\<lparr>files = [USERS_FILE \<mapsto> File [map CStr USERS_HEADERS, admin_row] True],
            tree = [], shown = []\<rparr>"
  have l: "files ?s LOG_FILE = None"
    by (simp add: USERS_FILE_def LOG_FILE_def)
  show ?thesis
    using log_action_missing_file_warns [OF l, of "''04/11/2026 10:00:00''" "''admin''" "''Logout''"
        "File [map CStr USERS_HEADERS, admin_row] True" "''admin''" admin_row]
    by (simp add: max_column_def iter_rows_def pad_row_def USERS_HEADERS_def admin_row_def
        showmsg_def)
qed

lemma attempt_login_locked:
  assumes "files s USERS_FILE = Some uf" and "3 \<le> max_column (content uf)"
    and "files s LOG_FILE = Some lf" and "\<not> writable lf"
    and "find (\<lambda>r. r ! 0 = CStr usuario \<and> r ! 1 = CStr (hash_password senha))
             (iter_rows (content uf)) = Some r"
  shows "attempt_login now usuario senha s = (LoginRaised PermissionError, s)"
proof -
  have rows: "\<forall>r\<in>set (iter_rows (content uf)). 3 \<le> length r"
    using assms(2) by (rule rows_three_columns)
  show ?thesis
    using assms(1,5)
    by (simp add: attempt_login_def load_workbook_def login_scan_find [OF rows]
        log_action_locked [OF assms(3,4)])
qed

text \<open>
  Counterexample to claim C8 as stated: with a log workbook that cannot be written,
  \<^verbatim>\<open>log_action\<close> lets \<^verbatim>\<open>PermissionError\<close> escape; no warning is shown, and a login
  with the right password raises instead of completing.
\<close>

theorem log_write_failure_escapes:
  "log_action ''04/11/2026 10:00:00'' ''admin'' ''Logout''
     \<lparr>files = [USERS_FILE \<mapsto> File [map CStr USERS_HEADERS, admin_row] True,
               LOG_FILE \<mapsto> File [map CStr LOG_HEADERS] False], tree = [], shown = []\<rparr>
   = (Raised PermissionError,
      \<lparr>files = [USERS_FILE \<mapsto> File [map CStr USERS_HEADERS, admin_row] True,
               LOG_FILE \<mapsto> File [map CStr LOG_HEADERS] False], tree = [], shown = []\<rparr>)
   \<and> attempt_login ''04/11/2026 10:00:00'' ''admin'' ''admin''
     \<lparr>files = [USERS_FILE \<mapsto> File [map CStr USERS_HEADERS, admin_row] True,
               LOG_FILE \<mapsto> File [map CStr LOG_HEADERS] False], tree = [], shown = []\<rparr>
   = (LoginRaised PermissionError,
      \<lparr>files = [USERS_FILE \<mapsto> File [map CStr USERS_HEADERS, admin_row] True,
               LOG_FILE \<mapsto> File [map CStr LOG_HEADERS] False], tree = [], shown = []\<rparr>)"
proof -
  let ?s = "\<lparr>files = [USERS_FILE \<mapsto> File [map CStr USERS_HEADERS, admin_row] True,
               LOG_FILE \<mapsto> File [map CStr LOG_HEADERS] False], tree = [], shown = []\<rparr>"
  have u: "files ?s USERS_FILE = Some (File [map CStr USERS_HEADERS, admin_row] True)"
    by (simp add: USERS_FILE_def LOG_FILE_def)
  have c: "3 \<le> max_column (content (File [map CStr USERS_HEADERS, admin_row] True))"
    by (simp add: max_column_def USERS_HEADERS_def admin_row_def)
  have l: "files ?s LOG_FILE = Some (File [map CStr LOG_HEADERS] False)"
    by simp
  have w: "\<not> writable (File [map CStr LOG_HEADERS] False)"
    by simp
  have f: "find (\<lambda>r. r ! 0 = CStr ''admin'' \<and> r ! 1 = CStr (hash_password ''admin''))
             (iter_rows (content (File [map CStr USERS_HEADERS, admin_row] True))) = Some admin_row"
    by (simp add: max_column_def iter_rows_def pad_row_def USERS_HEADERS_def admin_row_def)
  show ?thesis
    using log_action_locked [OF l w, of "''04/11/2026 10:00:00''" "''admin''" "''Logout''"]
      attempt_login_locked [OF u c l w f, of "''04/11/2026 10:00:00''"]
    by simp
qed

lemma attempt_login_missing_log:
  assumes "files s USERS_FILE = Some uf" and "3 \<le> max_column (content uf)"
    and "files s LOG_FILE = None"
    and "find (\<lambda>r. r ! 0 = CStr usuario \<and> r ! 1 = CStr (hash_password senha))
             (iter_rows (content uf)) = Some r"
  shows "attempt_login now usuario senha s = (Success usuario (r ! 2), showmsg LogErro s)"
proof -
  have rows: "\<forall>r\<in>set (iter_rows (content uf)). 3 \<le> length r"
    using assms(2) by (rule rows_three_columns)
  show ?thesis
    using assms(1,4)
    by (simp add: attempt_login_def load_workbook_def login_scan_find [OF rows]
        log_action_missing [OF assms(3)])
qed

text \<open>
  Counterexample to claim C7 as stated: the row of the default administrator matches
  the user name and the hash of the password, yet with a log workbook that cannot be
  written \<^verbatim>\<open>attempt_login\<close> raises \<^verbatim>\<open>PermissionError\<close> instead of succeeding, and
  with no log workbook it succeeds without any line being added to a log.
\<close>

theorem login_outcome_depends_on_log:
  "find (\<lambda>r. r ! 0 = CStr ''admin'' \<and> r ! 1 = CStr (hash_password ''admin''))
     (iter_rows [map CStr USERS_HEADERS, admin_row]) = Some admin_row
   \<and> attempt_login ''04/11/2026 10:00:00'' ''admin'' ''admin''
     \<lparr>files = [USERS_FILE \<mapsto> File [map CStr USERS_HEADERS, admin_row] True,
               LOG_FILE \<mapsto> File [map CStr LOG_HEADERS] False], tree = [], shown = []\<rparr>
   = (LoginRaised PermissionError,
      \<lparr>files = [USERS_FILE \<mapsto> File [map CStr USERS_HEADERS, admin_row] True,
               LOG_FILE \<mapsto> File [map CStr LOG_HEADERS] False], tree = [], shown = []\<rparr>)
   \<and> attempt_login ''04/11/2026 10:00:00'' ''admin'' ''admin''
     \<lparr>files = [USERS_FILE \<mapsto> File [map CStr USERS_HEADERS, admin_row] True], tree = [], shown = []\<rparr>
   = (Success ''admin'' (CStr ''admin''),
      \<lparr>files = [USERS_FILE \<mapsto> File [map CStr USERS_HEADERS, admin_row] True], tree = [],
       shown = [LogErro]\<rparr>)"
proof -
  let ?uf = "File [map CStr USERS_HEADERS, admin_row] True"
  let ?lf = "File [map CStr LOG_HEADERS] False"
  let ?locked = "\<lparr>files = [USERS_FILE \<mapsto> ?uf, LOG_FILE \<mapsto> ?lf], tree = [], shown = []\<rparr>"
  let ?nolog = "\<lparr>files = [USERS_FILE \<mapsto> ?uf], tree = [], shown = []\<rparr>"
  have c: "3 \<le> max_column (content ?uf)"
    by (simp add: max_column_def USERS_HEADERS_def admin_row_def)
  have f: "find (\<lambda>r. r ! 0 = CStr ''admin'' \<and> r ! 1 = CStr (hash_password ''admin''))
             (iter_rows (content ?uf)) = Some admin_row"
    by (simp add: max_column_def iter_rows_def pad_row_def USERS_HEADERS_def admin_row_def)
  have u1: "files ?locked USERS_FILE = Some ?uf"
    by (simp add: USERS_FILE_def LOG_FILE_def)
  have l1: "files ?locked LOG_FILE = Some ?lf"
    by simp
  have w1: "\<not> writable ?lf"
    by simp
  have u2: "files ?nolog USERS_FILE = Some ?uf"
    by simp
  have l2: "files ?nolog LOG_FILE = None"
    by (simp add: USERS_FILE_def LOG_FILE_def)
  show ?thesis
    using f attempt_login_locked [OF u1 c l1 w1 f, of "''04/11/2026 10:00:00''"]
      attempt_login_missing_log [OF u2 c l2 f, of "''04/11/2026 10:00:00''"]
    by (simp add: showmsg_def admin_row_def)
qed

section \<open>Search\<close>

lemma py_in_sublist: "py_in sub s = sublist sub s"
  by (induction s) (simp_all add: sublist_Cons_right)

lemma py_in_iff: "py_in sub s \<longleftrightarrow> (\<exists>ps ss. s = ps @ sub @ ss)"
  by (simp add: py_in_sublist sublist_def)

lemma lower_hex_digit: "lower_chr (hex_digit n) = hex_digit n"
proof -
  have "\<forall>k<16. lower_chr (''0123456789abcdef'' ! k) = ''0123456789abcdef'' ! k"
    by (simp add: eval_nat_numeral All_less_Suc lower_chr_def)
  then show ?thesis
    by (simp add: hex_digit_def)
qed

lemma lower_hex32: "map lower_chr (hex32 w) = hex32 w"
  by (simp add: hex32_def lower_hex_digit)

lemma lower_hash_password: "lower (hash_password s) = hash_password s"
  by (simp add: hash_password_def hexdigest_def lower_hex32 lower_def split: prod.splits)

lemma filter_tree_ok:
  assumes "files s filename = Some f"
    and "filename = USERS_FILE \<longrightarrow> 2 \<le> max_column (content f)"
  shows "filter_tree filename query s =
     (Completed, s\<lparr>tree := map (\<lambda>r. if filename = USERS_FILE then r[1 := CStr placeholder] else r)
        (filter (row_matches (lower query)) (iter_rows (content f)))\<rparr>)"
proof -
  have "filename = USERS_FILE \<longrightarrow>
      (\<forall>r\<in>set (filter (row_matches (lower query)) (iter_rows (content f))). 1 < length r)"
    using assms(2) by (auto dest: length_iter_rows)
  then have "insert_rows filename (filter (row_matches (lower query)) (iter_rows (content f)))
        (s\<lparr>tree := []\<rparr>)
     = (Completed, s\<lparr>tree := [] @ map (\<lambda>r. if filename = USERS_FILE then r[1 := CStr placeholder] else r)
        (filter (row_matches (lower query)) (iter_rows (content f)))\<rparr>)"
    by (subst insert_rows_ok) simp_all
  with assms(1) show ?thesis
    by (simp add: filter_tree_def Let_def load_workbook_def)
qed

lemma iter_rows_nonempty: "r \<in> set (iter_rows ws) \<Longrightarrow> r \<noteq> []"
  using length_iter_rows [of r ws] max_column_ge1 [of ws] by auto

text \<open>
  Claim C10. \<^verbatim>\<open>filter_tree\<close> compares the text \<^verbatim>\<open>str(cell)\<close> of every value, and a
  blank cell has the text "None": a row with a blank cell is shown for every query whose
  lower-case form occurs in "none", whatever the other values of the row are.
\<close>

theorem search_matches_None_text:
  assumes "files s filename = Some f"
    and "filename = USERS_FILE \<longrightarrow> 2 \<le> max_column (content f)"
    and "r \<in> set (iter_rows (content f))" and "CNone \<in> set r"
    and "py_in (lower query) (lower ''None'')"
  shows "py_str CNone = ''None''
    \<and> (if filename = USERS_FILE then r[1 := CStr ''********''] else r)
       \<in> set (tree (snd (filter_tree filename query s)))"
proof -
  have "row_matches (lower query) r"
    using assms(4,5) by (auto simp: row_matches_def list_ex_iff intro!: bexI [of _ CNone])
  with assms(3) have "r \<in> set (filter (row_matches (lower query)) (iter_rows (content f)))"
    by simp
  then show ?thesis
    by (simp add: filter_tree_ok [OF assms(1,2)] placeholder_def)
qed

text \<open>
  Claim C4, as amended. \<^verbatim>\<open>filter_tree\<close> shows exactly the rows in which the lower-case
  text of at least one value, the SenhaHash column included, contains the lower-case
  query as a contiguous piece (the shown line is masked in the users window); the empty
  query shows every row.
\<close>

theorem filter_tree_matches_any_field:
  assumes "files s filename = Some f"
    and "filename = USERS_FILE \<longrightarrow> 2 \<le> max_column (content f)"
  shows "filter_tree filename query s =
     (Completed, s\<lparr>tree := map (\<lambda>r. if filename = USERS_FILE then r[1 := CStr ''********''] else r)
        (filter (\<lambda>r. \<exists>c\<in>set r. py_in (lower query) (lower (py_str c)))
           (iter_rows (content f)))\<rparr>)
    \<and> (py_in a b \<longleftrightarrow> (\<exists>ps ss. b = ps @ a @ ss))
    \<and> filter (\<lambda>r. \<exists>c\<in>set r. py_in (lower []) (lower (py_str c))) (iter_rows (content f))
        = iter_rows (content f)"
proof (intro conjI)
  have "row_matches (lower query) = (\<lambda>r. \<exists>c\<in>set r. py_in (lower query) (lower (py_str c)))"
    by (rule ext) (simp add: row_matches_def list_ex_iff)
  then show "filter_tree filename query s =
     (Completed, s\<lparr>tree := map (\<lambda>r. if filename = USERS_FILE then r[1 := CStr ''********''] else r)
        (filter (\<lambda>r. \<exists>c\<in>set r. py_in (lower query) (lower (py_str c)))
           (iter_rows (content f)))\<rparr>)"
    using filter_tree_ok [OF assms, of query] by (simp add: placeholder_def)
next
  show "py_in a b \<longleftrightarrow> (\<exists>ps ss. b = ps @ a @ ss)"
    by (rule py_in_iff)
next
  have "\<forall>r\<in>set (iter_rows (content f)). \<exists>c\<in>set r. py_in (lower []) (lower (py_str c))"
  proof
    fix r assume "r \<in> set (iter_rows (content f))"
    then have "r \<noteq> []" by (rule iter_rows_nonempty)
    then obtain c where "c \<in> set r" by (cases r) auto
    then show "\<exists>c\<in>set r. py_in (lower []) (lower (py_str c))"
      by (auto simp: py_in_sublist lower_def)
  qed
  then show "filter (\<lambda>r. \<exists>c\<in>set r. py_in (lower []) (lower (py_str c))) (iter_rows (content f))
        = iter_rows (content f)"
    by (simp add: filter_id_conv)
qed

theorem filter_tree_matches_any_field_witness:
  "filter_tree USERS_FILE ''ADM''
     \<lparr>files = [USERS_FILE \<mapsto> File [map CStr USERS_HEADERS, admin_row] True], tree = [], shown = []\<rparr>
   = (Completed,
      \<lparr>files = [USERS_FILE \<mapsto> File [map CStr USERS_HEADERS, admin_row] True],
       tree = [[CStr ''admin'', CStr ''********'', CStr ''admin'']], shown = []\<rparr>)"
proof -
  let ?s = "\<lparr>files = [USERS_FILE \<mapsto> File [map CStr USERS_HEADERS, admin_row] True],
            tree = [], shown = []\<rparr>"
  have u: "files ?s USERS_FILE = Some (File [map CStr USERS_HEADERS, admin_row] True)"
    by simp
  have c: "USERS_FILE = USERS_FILE \<longrightarrow> 2 \<le> max_column (content (File [map CStr USERS_HEADERS, admin_row] True))"
    by (simp add: max_column_def USERS_HEADERS_def admin_row_def)
  show ?thesis
    using filter_tree_matches_any_field [OF u c, of "''ADM''"]
    by (simp add: max_column_def iter_rows_def pad_row_def USERS_HEADERS_def admin_row_def
        lower_def lower_chr_def char_of_def bit_0)
qed

theorem search_matches_None_text_witness:
  "[CInt 2, CStr ''Ana'', CNone]
     \<in> set (tree (snd (filter_tree VISITORS_FILE ''No''
          \<lparr>files = [VISITORS_FILE \<mapsto> File [[CStr ''ID'', CStr ''Nome'', CStr ''Telefone''],
                      [CInt 1, CStr ''Rui'', CStr ''999''], [CInt 2, CStr ''Ana'']] True],
           tree = [], shown = []\<rparr>)))"
proof -
  let ?f = "File [[CStr ''ID'', CStr ''Nome'', CStr ''Telefone''],
                      [CInt 1, CStr ''Rui'', CStr ''999''], [CInt 2, CStr ''Ana'']] True"
  let ?s = "\<lparr>files = [VISITORS_FILE \<mapsto> ?f], tree = [], shown = []\<rparr>"
  have u: "files ?s VISITORS_FILE = Some ?f"
    by simp
  have c: "VISITORS_FILE = USERS_FILE \<longrightarrow> 2 \<le> max_column (content ?f)"
    by (simp add: VISITORS_FILE_def USERS_FILE_def)
  have r: "[CInt 2, CStr ''Ana'', CNone] \<in> set (iter_rows (content ?f))"
    by (simp add: max_column_def iter_rows_def pad_row_def)
  have n: "CNone \<in> set [CInt 2, CStr ''Ana'', CNone]"
    by simp
  have q: "py_in (lower ''No'') (lower ''None'')"
    by (simp add: lower_def lower_chr_def char_of_def bit_0)
  show ?thesis
    using search_matches_None_text [OF u c r n q]
    by (simp add: VISITORS_FILE_def USERS_FILE_def)
qed

text \<open>
  Counterexample to claim C4 as stated: in the users window the stored digest of the
  default administrator, typed as the query, finds the row, although it occurs in neither
  of the two other values of the row ("admin" both): the SenhaHash column takes part in
  the search.
\<close>

theorem search_matches_secret_column:
  "tree (snd (filter_tree USERS_FILE (hash_password ''admin'')
      \<lparr>files = [USERS_FILE \<mapsto> File [map CStr USERS_HEADERS, admin_row] True], tree = [], shown = []\<rparr>))
   = [[CStr ''admin'', CStr ''********'', CStr ''admin'']]
   \<and> \<not> py_in (lower (hash_password ''admin'')) (lower (py_str (CStr ''admin'')))"
proof -
  let ?s = "\<lparr>files = [USERS_FILE \<mapsto> File [map CStr USERS_HEADERS, admin_row] True],
            tree = [], shown = []\<rparr>"
  have u: "files ?s USERS_FILE = Some (File [map CStr USERS_HEADERS, admin_row] True)"
    by simp
  have c: "USERS_FILE = USERS_FILE \<longrightarrow> 2 \<le> max_column (content (File [map CStr USERS_HEADERS, admin_row] True))"
    by (simp add: max_column_def USERS_HEADERS_def admin_row_def)
  have rows: "iter_rows (content (File [map CStr USERS_HEADERS, admin_row] True)) = [admin_row]"
    by (simp add: max_column_def iter_rows_def pad_row_def USERS_HEADERS_def admin_row_def)
  have no: "\<not> py_in (hash_password ''admin'') (lower ''admin'')"
  proof
    assume "py_in (hash_password ''admin'') (lower ''admin'')"
    then have "length (hash_password ''admin'') \<le> length (lower ''admin'')"
      unfolding py_in_sublist by (rule sublist_length_le)
    then show False
      by (simp add: length_hash_password lower_def)
  qed
  have yes: "row_matches (hash_password ''admin'') admin_row"
    by (simp add: row_matches_def admin_row_def lower_hash_password py_in_sublist)
  have t: "tree (snd (filter_tree USERS_FILE (hash_password ''admin'') ?s))
      = [admin_row[1 := CStr placeholder]]"
    using filter_tree_ok [OF u c, of "hash_password ''admin''"] rows yes
    by (simp add: lower_hash_password)
  show ?thesis
    unfolding t using no
    by (simp add: admin_row_def placeholder_def lower_hash_password)
qed

section \<open>Adding, editing and deleting records\<close>

lemma files_showmsg: "files (showmsg m s) = files s"
  by (simp add: showmsg_def)

lemma files_catch_all: "files (snd (catch_all m r)) = files (snd r)"
  by (cases r) (simp add: catch_all_def files_showmsg split: outcome.splits)

lemma add_record_files:
  assumes "files s filename = Some f" and "writable f"
    and "new_id_for (content f) = Inr n" and "new_row_for filename n result = Inr new_row"
    and "result \<noteq> []"
  shows "files (snd (add_record filename result s))
     = (files s)(filename \<mapsto> File (content f @ [new_row]) True)"
  using assms
  by (simp add: add_record_def files_catch_all load_workbook_def save_def append_row_def
      load_data_files)

lemma edit_record_files:
  assumes "files s filename = Some f" and "writable f"
    and "find_row record_id (iter_rows (content f)) 2 = Some row_to_edit"
    and "updated_row_for filename record_id result = Inr updated_row"
    and "result \<noteq> []"
  shows "files (snd (edit_record filename (Some record_id) result s))
     = (files s)(filename \<mapsto> File (write_cells (content f) row_to_edit 1 updated_row) True)"
  using assms
  by (simp add: edit_record_def files_catch_all load_workbook_def save_def load_data_files)

lemma delete_record_files:
  assumes "files s filename = Some f" and "writable f"
    and "find_row record_id (iter_rows (content f)) 2 = Some row_to_delete"
  shows "files (snd (delete_record filename (Some record_id) True s))
     = (files s)(filename \<mapsto> File (delete_rows (content f) row_to_delete) True)"
  using assms
  by (simp add: delete_record_def files_catch_all load_workbook_def save_def load_data_files)

lemma delete_record_not_found:
  assumes "files s filename = Some f"
    and "find_row record_id (iter_rows (content f)) 2 = None"
  shows "files (snd (delete_record filename (Some record_id) True s)) = files s"
  using assms
  by (simp add: delete_record_def files_catch_all load_workbook_def files_showmsg)

lemma delete_record_locked:
  assumes "files s filename = Some f" and "\<not> writable f"
  shows "files (snd (delete_record filename (Some record_id) True s)) = files s"
  using assms
  by (simp add: delete_record_def files_catch_all load_workbook_def save_def files_showmsg
      split: option.splits)

lemma hash_password_not_short: "length t < 64 \<Longrightarrow> hash_password s \<noteq> t"
  using length_hash_password [of s] by auto

text \<open>
  Claim C1 fails on the code. In the users window the form has two fields, SenhaHash and
  the permission (the first header is dropped as if it were the ID), so \<^verbatim>\<open>new_row[2]\<close>
  is the permission: \<^verbatim>\<open>add_record\<close> hashes the permission and appends the password as
  typed. Here the password "abc123" lands in the SenhaHash column of the new row, and it
  is not its digest.
\<close>

theorem add_record_users_stores_plaintext:
  "files (snd (add_record USERS_FILE [''abc123'', ''leitura'']
      \<lparr>files = [USERS_FILE \<mapsto> File [map CStr USERS_HEADERS, admin_row] True], tree = [], shown = []\<rparr>))
     USERS_FILE
   = Some (File [map CStr USERS_HEADERS, admin_row,
        [CInt 1, CStr ''abc123'', CStr (hash_password ''leitura'')]] True)
   \<and> CStr ''abc123'' \<noteq> CStr (hash_password ''abc123'')"
proof -
  let ?f = "File [map CStr USERS_HEADERS, admin_row] True"
  let ?s = "\<lparr>files = [USERS_FILE \<mapsto> ?f], tree = [], shown = []\<rparr>"
  have u: "files ?s USERS_FILE = Some ?f"
    by simp
  have w: "writable ?f"
    by simp
  have n: "new_id_for (content ?f) = Inr 1"
    by (simp add: new_id_for_def max_row_def cell_value_def admin_row_def isdigit_def
        isdigit_chr_def)
  have r: "new_row_for USERS_FILE 1 [''abc123'', ''leitura'']
      = Inr [CInt 1, CStr ''abc123'', CStr (hash_password ''leitura'')]"
    by (simp add: new_row_for_def py_index_def)
  have "files (snd (add_record USERS_FILE [''abc123'', ''leitura''] ?s))
      = (files ?s)(USERS_FILE \<mapsto> File (content ?f @
          [[CInt 1, CStr ''abc123'', CStr (hash_password ''leitura'')]]) True)"
    by (rule add_record_files [OF u w n r]) simp
  then show ?thesis
    by (simp add: hash_password_not_short [symmetric])
qed

text \<open>
  Claim C3 fails on the code. \<^verbatim>\<open>edit_record\<close> writes every value of
  \<^verbatim>\<open>updated_row\<close> into the row, the placeholder included: editing the default
  administrator and leaving the eight asterisks in the password field replaces the
  stored digest by the asterisks (and the permission by its hash), and the login that
  succeeded before the edit fails after it.
\<close>

theorem edit_record_placeholder_overwrites_digest:
  "files (snd (edit_record USERS_FILE (Some (CStr ''admin'')) [''********'', ''admin'']
      \<lparr>files = [USERS_FILE \<mapsto> File [map CStr USERS_HEADERS, admin_row] True,
                LOG_FILE \<mapsto> File [map CStr LOG_HEADERS] True], tree = [], shown = []\<rparr>))
     USERS_FILE
   = Some (File [map CStr USERS_HEADERS,
        [CStr ''admin'', CStr ''********'', CStr (hash_password ''admin'')]] True)
   \<and> fst (attempt_login ''04/11/2026 10:00:00'' ''admin'' ''admin''
      (snd (edit_record USERS_FILE (Some (CStr ''admin'')) [''********'', ''admin'']
      \<lparr>files = [USERS_FILE \<mapsto> File [map CStr USERS_HEADERS, admin_row] True,
                LOG_FILE \<mapsto> File [map CStr LOG_HEADERS] True], tree = [], shown = []\<rparr>)))
   = NoSuccess
   \<and> fst (attempt_login ''04/11/2026 10:00:00'' ''admin'' ''admin''
      \<lparr>files = [USERS_FILE \<mapsto> File [map CStr USERS_HEADERS, admin_row] True,
                LOG_FILE \<mapsto> File [map CStr LOG_HEADERS] True], tree = [], shown = []\<rparr>)
   = Success ''admin'' (CStr ''admin'')"
proof -
  let ?f = "File [map CStr USERS_HEADERS, admin_row] True"
  let ?lf = "File [map CStr LOG_HEADERS] True"
  let ?s = "\<lparr>files = [USERS_FILE \<mapsto> ?f, LOG_FILE \<mapsto> ?lf], tree = [], shown = []\<rparr>"
  let ?new = "[map CStr USERS_HEADERS,
        [CStr ''admin'', CStr ''********'', CStr (hash_password ''admin'')]]"
  let ?s' = "snd (edit_record USERS_FILE (Some (CStr ''admin'')) [''********'', ''admin''] ?s)"
  have u: "files ?s USERS_FILE = Some ?f"
    by (simp add: USERS_FILE_def LOG_FILE_def)
  have w: "writable ?f"
    by simp
  have i: "find_row (CStr ''admin'') (iter_rows (content ?f)) 2 = Some 2"
    by (simp add: iter_rows_def max_column_def pad_row_def USERS_HEADERS_def admin_row_def col0_def)
  have r: "updated_row_for USERS_FILE (CStr ''admin'') [''********'', ''admin'']
      = Inr [CStr ''admin'', CStr ''********'', CStr (hash_password ''admin'')]"
    by (simp add: updated_row_for_def py_index_def placeholder_def)
  have c: "write_cells (content ?f) 2 1
        [CStr ''admin'', CStr ''********'', CStr (hash_password ''admin'')] = ?new"
    by (simp add: set_cell_def pad_row_def admin_row_def Let_def eval_nat_numeral)
  have "files ?s' = (files ?s)(USERS_FILE \<mapsto> File (write_cells (content ?f) 2 1
        [CStr ''admin'', CStr ''********'', CStr (hash_password ''admin'')]) True)"
    by (rule edit_record_files [OF u w i r]) simp
  then have "files ?s' = (files ?s)(USERS_FILE \<mapsto> File ?new True)"
    unfolding c .
  then have after: "files ?s' USERS_FILE = Some (File ?new True)"
    by simp
  have cols: "3 \<le> max_column (content (File ?new True))"
    by (simp add: max_column_def USERS_HEADERS_def)
  have none: "find (\<lambda>r. r ! 0 = CStr ''admin'' \<and> r ! 1 = CStr (hash_password ''admin''))
             (iter_rows (content (File ?new True))) = None"
    by (simp add: iter_rows_def max_column_def pad_row_def USERS_HEADERS_def
        hash_password_not_short [symmetric])
  have l: "files ?s LOG_FILE = Some ?lf"
    by simp
  have wl: "writable ?lf"
    by simp
  have cols0: "3 \<le> max_column (content ?f)"
    by (simp add: max_column_def USERS_HEADERS_def admin_row_def)
  have some: "find (\<lambda>r. r ! 0 = CStr ''admin'' \<and> r ! 1 = CStr (hash_password ''admin''))
             (iter_rows (content ?f)) = Some admin_row"
    by (simp add: iter_rows_def max_column_def pad_row_def USERS_HEADERS_def admin_row_def)
  have before: "fst (attempt_login ''04/11/2026 10:00:00'' ''admin'' ''admin'' ?s)
      = Success ''admin'' (admin_row ! 2)"
    using attempt_login_find [OF u cols0 l wl, of "''04/11/2026 10:00:00''" "''admin''" "''admin''"] some
    by simp
  show ?thesis
    using after attempt_login_none [OF after cols none, of "''04/11/2026 10:00:00''"] before
    by (simp add: admin_row_def)
qed

subsection \<open>The identifier of a new record\<close>

lemma of_char_digit_chr: "k < 10 \<Longrightarrow> (of_char (digit_chr k) :: nat) = 48 + k"
  by (simp add: digit_chr_def)

lemma ascii_digit_digit_chr: "k < 10 \<Longrightarrow> ascii_digit (digit_chr k)"
  by (simp add: ascii_digit_def of_char_digit_chr)

lemma digits_ascii: "digits n \<noteq> [] \<and> list_all ascii_digit (digits n)"
proof (induction n rule: digits.induct)
  case (1 n)
  show ?case
  proof (cases "n < 10")
    case True
    then show ?thesis
      by (subst (1 2) digits.simps) (simp add: ascii_digit_digit_chr)
  next
    case False
    with 1 have "list_all ascii_digit (digits (n div 10))" by simp
    moreover have "ascii_digit (digit_chr (n mod 10))"
      by (rule ascii_digit_digit_chr) simp
    ultimately show ?thesis
      using False by (subst (1 2) digits.simps) simp
  qed
qed

lemma ascii_digit_isdigit_chr: "ascii_digit c \<Longrightarrow> isdigit_chr c"
  by (simp add: ascii_digit_def isdigit_chr_def Let_def)

lemma ascii_digits_isdigit: "t \<noteq> [] \<Longrightarrow> list_all ascii_digit t \<Longrightarrow> isdigit t"
  by (auto simp: isdigit_def list_all_iff ascii_digit_isdigit_chr)

lemma isdigit_str_int: "isdigit (str_int n) \<longleftrightarrow> 0 \<le> n"
proof (cases "0 \<le> n")
  case True
  then show ?thesis
    using digits_ascii [of "nat n"] by (simp add: str_int_def ascii_digits_isdigit)
next
  case False
  then show ?thesis
    by (simp add: str_int_def isdigit_def isdigit_chr_def)
qed

lemma new_id_for_cases:
  "new_id_for ws =
     (if length ws \<le> 1 then Inr 1
      else case cell_value ws (length ws) 1 of
             CNone \<Rightarrow> Inr 1
           | CInt n \<Rightarrow> Inr (if 0 \<le> n then n + 1 else 1)
           | CStr t \<Rightarrow>
               if t \<noteq> [] \<and> list_all ascii_digit t
               then Inr (int (foldl (\<lambda>a c. 10 * a + (of_char c - 48)) 0 t) + 1)
               else if isdigit t then Inl ValueError else Inr 1)"
proof (cases "length ws \<le> 1")
  case True
  then show ?thesis by (simp add: new_id_for_def max_row_def)
next
  case False
  then have m: "max_row ws = length ws" by (simp add: max_row_def)
  show ?thesis
  proof (cases "cell_value ws (length ws) 1")
    case CNone
    with False m show ?thesis by (simp add: new_id_for_def)
  next
    case (CInt n)
    with False m show ?thesis by (simp add: new_id_for_def isdigit_str_int)
  next
    case (CStr t)
    with False m show ?thesis
      by (auto simp add: new_id_for_def ascii_digits_isdigit)
  qed
qed

lemma new_row_for_shape:
  assumes "result \<noteq> []" and "filename = USERS_FILE \<longrightarrow> 2 \<le> length result"
  shows "\<exists>row. new_row_for filename n result = Inr (CInt n # row)"
proof (cases "filename = USERS_FILE")
  case True
  with assms(2) obtain a b rest where "result = a # b # rest"
    by (cases result; cases "tl result") auto
  with True show ?thesis
    by (simp add: new_row_for_def py_index_def eval_nat_numeral)
next
  case False
  then show ?thesis by (simp add: new_row_for_def)
qed

lemma cell_value_last_snoc:
  "cell_value (ws @ [c # row]) (Suc (length ws)) 1 = c"
  by (simp add: cell_value_def nth_append)

lemma new_id_for_snoc:
  assumes "ws \<noteq> []" and "0 \<le> k"
  shows "new_id_for (ws @ [CInt k # row]) = Inr (k + 1)"
proof -
  from assms(1) have "\<not> length (ws @ [CInt k # row]) \<le> 1"
    by (cases ws) simp_all
  then show ?thesis
    using assms(2) cell_value_last_snoc [of ws "CInt k" row]
    by (simp add: new_id_for_cases)
qed

lemma ids_of_snoc: "ws \<noteq> [] \<Longrightarrow> ids_of (ws @ [r]) = ids_of ws @ [col0 r]"
  by (cases ws) (simp_all add: ids_of_raw)

lemma add_record_appends:
  assumes "files s filename = Some f" and "writable f"
    and "new_id_for (content f) = Inr n" and "result \<noteq> []"
    and "filename = USERS_FILE \<longrightarrow> 2 \<le> length result"
  shows "\<exists>row. files (snd (add_record filename result s))
     = (files s)(filename \<mapsto> File (content f @ [CInt n # row]) True)"
proof -
  from new_row_for_shape [OF assms(4,5)]
  obtain row where "new_row_for filename n result = Inr (CInt n # row)" by blast
  from add_record_files [OF assms(1,2,3) this assms(4)] show ?thesis by blast
qed

lemma add_records_ids:
  assumes "files s filename = Some (File ws True)" and "ws \<noteq> []"
    and "new_id_for ws = Inr k" and "0 \<le> k"
    and "[] \<notin> set results"
    and "filename = USERS_FILE \<longrightarrow> (\<forall>r\<in>set results. 2 \<le> length r)"
  shows "\<exists>ws'. files (add_records filename results s) filename = Some (File ws' True)
    \<and> ids_of ws' = ids_of ws @ map (\<lambda>i. CInt (k + int i)) [0..<length results]"
  using assms
proof (induction results arbitrary: s ws k)
  case Nil
  then show ?case by simp
next
  case (Cons result results)
  let ?s1 = "snd (add_record filename result s)"
  have "\<exists>row. files ?s1 = (files s)(filename \<mapsto> File (content (File ws True) @ [CInt k # row]) True)"
    using Cons.prems by (intro add_record_appends) auto
  then obtain row where s1: "files ?s1 filename = Some (File (ws @ [CInt k # row]) True)"
    by auto
  have nid: "new_id_for (ws @ [CInt k # row]) = Inr (k + 1)"
    using Cons.prems(2,4) by (rule new_id_for_snoc)
  have "\<exists>ws'. files (add_records filename results ?s1) filename = Some (File ws' True)
    \<and> ids_of ws' = ids_of (ws @ [CInt k # row]) @ map (\<lambda>i. CInt (k + 1 + int i)) [0..<length results]"
    using Cons.prems by (intro Cons.IH [OF s1 _ nid]) auto
  then obtain ws' where f: "files (add_records filename results ?s1) filename = Some (File ws' True)"
    and i: "ids_of ws' = ids_of (ws @ [CInt k # row]) @ map (\<lambda>i. CInt (k + 1 + int i)) [0..<length results]"
    by blast
  have "map (\<lambda>i. CInt (k + int i)) [0..<length (result # results)]
      = CInt k # map (\<lambda>i. CInt (k + 1 + int i)) [0..<length results]"
    by (simp add: upt_conv_Cons map_Suc_upt [symmetric] del: upt_Suc)
  with i Cons.prems(2) have "ids_of ws' = ids_of ws @ map (\<lambda>i. CInt (k + int i)) [0..<length (result # results)]"
    by (simp add: ids_of_snoc col0_def)
  with f show ?case by auto
qed

text \<open>
  Claim C2, as amended. The identifier \<^verbatim>\<open>add_record\<close> assigns is 1 when the sheet has
  no row below the header, and otherwise depends on the first value of the last row
  alone: one more when that is a non-negative integer (or a text of decimal digits), 1
  when it is blank, negative or not numeric. The row appended starts with that
  identifier. Hence the records added one after the other to a sheet holding only its
  header get the identifiers 1, 2, 3, ...
\<close>

theorem new_id_is_last_plus_one:
  "new_id_for ws =
     (if length ws \<le> 1 then Inr 1
      else case cell_value ws (length ws) 1 of
             CNone \<Rightarrow> Inr 1
           | CInt n \<Rightarrow> Inr (if 0 \<le> n then n + 1 else 1)
           | CStr t \<Rightarrow>
               if t \<noteq> [] \<and> list_all ascii_digit t
               then Inr (int (foldl (\<lambda>a c. 10 * a + (of_char c - 48)) 0 t) + 1)
               else if isdigit t then Inl ValueError else Inr 1)
   \<and> (files s filename = Some f \<and> writable f \<and> new_id_for (content f) = Inr n
        \<and> result \<noteq> [] \<and> (filename = USERS_FILE \<longrightarrow> 2 \<le> length result)
      \<longrightarrow> (\<exists>row. files (snd (add_record filename result s))
             = (files s)(filename \<mapsto> File (content f @ [CInt n # row]) True)))
   \<and> (files s filename = Some (File [header] True) \<and> [] \<notin> set results
        \<and> (filename = USERS_FILE \<longrightarrow> (\<forall>r\<in>set results. 2 \<le> length r))
      \<longrightarrow> (\<exists>ws'. files (add_records filename results s) filename = Some (File ws' True)
             \<and> ids_of ws' = map (\<lambda>i. CInt (int i)) [1..<Suc (length results)]))"
proof (intro conjI impI)
  show "new_id_for ws =
     (if length ws \<le> 1 then Inr 1
      else case cell_value ws (length ws) 1 of
             CNone \<Rightarrow> Inr 1
           | CInt n \<Rightarrow> Inr (if 0 \<le> n then n + 1 else 1)
           | CStr t \<Rightarrow>
               if t \<noteq> [] \<and> list_all ascii_digit t
               then Inr (int (foldl (\<lambda>a c. 10 * a + (of_char c - 48)) 0 t) + 1)
               else if isdigit t then Inl ValueError else Inr 1)"
    by (rule new_id_for_cases)
next
  assume "files s filename = Some f \<and> writable f \<and> new_id_for (content f) = Inr n
        \<and> result \<noteq> [] \<and> (filename = USERS_FILE \<longrightarrow> 2 \<le> length result)"
  then show "\<exists>row. files (snd (add_record filename result s))
             = (files s)(filename \<mapsto> File (content f @ [CInt n # row]) True)"
    by (intro add_record_appends) simp_all
next
  assume a: "files s filename = Some (File [header] True) \<and> [] \<notin> set results
        \<and> (filename = USERS_FILE \<longrightarrow> (\<forall>r\<in>set results. 2 \<le> length r))"
  have one: "new_id_for [header] = Inr 1"
    by (simp add: new_id_for_cases)
  have "\<exists>ws'. files (add_records filename results s) filename = Some (File ws' True)
    \<and> ids_of ws' = ids_of [header] @ map (\<lambda>i. CInt (1 + int i)) [0..<length results]"
    using a by (intro add_records_ids [OF _ _ one]) simp_all
  moreover have "map (\<lambda>i. CInt (1 + int i)) [0..<length results]
      = map (\<lambda>i. CInt (int i)) [1..<Suc (length results)]"
    by (simp add: map_Suc_upt [symmetric] add.commute del: upt_Suc)
  ultimately show "\<exists>ws'. files (add_records filename results s) filename = Some (File ws' True)
             \<and> ids_of ws' = map (\<lambda>i. CInt (int i)) [1..<Suc (length results)]"
    by (simp add: ids_of_raw)
qed

theorem new_id_is_last_plus_one_witness:
  "new_id_for [[CStr ''ID'', CStr ''Nome''], [CInt 5, CStr ''Ana''], [CInt 2, CStr ''Rui'']] = Inr 3
   \<and> (\<exists>row. files (snd (add_record VISITORS_FILE [''Eva'']
          \<lparr>files = [VISITORS_FILE \<mapsto> File [[CStr ''ID'', CStr ''Nome''], [CInt 5, CStr ''Ana''],
             [CInt 2, CStr ''Rui'']] True], tree = [], shown = []\<rparr>))
        = [VISITORS_FILE \<mapsto> File [[CStr ''ID'', CStr ''Nome''], [CInt 5, CStr ''Ana''],
             [CInt 2, CStr ''Rui''], CInt 3 # row] True])
   \<and> (\<exists>ws'. files (add_records VISITORS_FILE [[''Ana''], [''Rui''], [''Eva'']]
          \<lparr>files = [VISITORS_FILE \<mapsto> File [[CStr ''ID'', CStr ''Nome'']] True],
           tree = [], shown = []\<rparr>) VISITORS_FILE = Some (File ws' True)
        \<and> ids_of ws' = [CInt 1, CInt 2, CInt 3])"
proof -
  let ?ws = "[[CStr ''ID'', CStr ''Nome''], [CInt 5, CStr ''Ana''], [CInt 2, CStr ''Rui'']]"
  let ?s = "\<lparr>files = [VISITORS_FILE \<mapsto> File ?ws True], tree = [], shown = []\<rparr>"
  let ?init = "\<lparr>files = [VISITORS_FILE \<mapsto> File [[CStr ''ID'', CStr ''Nome'']] True],
           tree = [], shown = []\<rparr>"
  have n: "new_id_for ?ws = Inr 3"
    using new_id_is_last_plus_one [where ws = ?ws] by (simp add: cell_value_def)
  have a: "\<exists>row. files (snd (add_record VISITORS_FILE [''Eva''] ?s))
        = (files ?s)(VISITORS_FILE \<mapsto> File (content (File ?ws True) @ [CInt 3 # row]) True)"
    using new_id_is_last_plus_one [where s = ?s and filename = VISITORS_FILE
        and f = "File ?ws True" and n = 3 and result = "[''Eva'']"] n
    by (simp add: VISITORS_FILE_def USERS_FILE_def)
  have b: "\<exists>ws'. files (add_records VISITORS_FILE [[''Ana''], [''Rui''], [''Eva'']] ?init)
          VISITORS_FILE = Some (File ws' True)
        \<and> ids_of ws' = map (\<lambda>i. CInt (int i)) [1..<Suc (length [[''Ana''], [''Rui''], [''Eva'']])]"
    using new_id_is_last_plus_one [where s = ?init and filename = VISITORS_FILE
        and header = "[CStr ''ID'', CStr ''Nome'']" and results = "[[''Ana''], [''Rui''], [''Eva'']]"]
    by (simp add: VISITORS_FILE_def USERS_FILE_def)
  have c: "map (\<lambda>i. CInt (int i)) [1..<Suc (length [[''Ana''], [''Rui''], [''Eva'']])]
      = [CInt 1, CInt 2, CInt 3]"
    by (simp add: upt_conv_Cons)
  from n a b show ?thesis
    unfolding c by simp
qed

text \<open>
  Counterexample to claim C2 as stated: in a sheet whose rows have the identifiers 5 and
  2, in that order, the new record gets 3, not one plus the maximum.
\<close>

theorem new_id_not_maximum_plus_one:
  "files (snd (add_record VISITORS_FILE [''Eva'']
          \<lparr>files = [VISITORS_FILE \<mapsto> File [[CStr ''ID'', CStr ''Nome''], [CInt 5, CStr ''Ana''],
             [CInt 2, CStr ''Rui'']] True], tree = [], shown = []\<rparr>))
        = [VISITORS_FILE \<mapsto> File [[CStr ''ID'', CStr ''Nome''], [CInt 5, CStr ''Ana''],
             [CInt 2, CStr ''Rui''], [CInt 3, CStr ''Eva'']] True]"
proof -
  let ?ws = "[[CStr ''ID'', CStr ''Nome''], [CInt 5, CStr ''Ana''], [CInt 2, CStr ''Rui'']]"
  let ?s = "\<lparr>files = [VISITORS_FILE \<mapsto> File ?ws True], tree = [], shown = []\<rparr>"
  have u: "files ?s VISITORS_FILE = Some (File ?ws True)"
    by simp
  have n: "new_id_for (content (File ?ws True)) = Inr 3"
    by (simp add: new_id_for_cases cell_value_def)
  have r: "new_row_for VISITORS_FILE 3 [''Eva''] = Inr [CInt 3, CStr ''Eva'']"
    by (simp add: new_row_for_def VISITORS_FILE_def USERS_FILE_def)
  show ?thesis
    using add_record_files [OF u _ n r] by simp
qed

subsection \<open>Deleting a record\<close>

lemma find_row_None: "find_row record_id rows i = None \<longleftrightarrow> record_id \<notin> set (map col0 rows)"
  by (induction rows arbitrary: i) auto

lemma find_row_Some:
  "find_row record_id rows k = Some i \<Longrightarrow>
   k \<le> i \<and> i - k < length rows
   \<and> take (i - k) (map col0 rows) @ drop (Suc (i - k)) (map col0 rows)
       = remove1 record_id (map col0 rows)"
proof (induction rows arbitrary: k)
  case Nil
  then show ?case by simp
next
  case (Cons r rows)
  show ?case
  proof (cases "col0 r = record_id")
    case True
    with Cons.prems show ?thesis by simp
  next
    case False
    with Cons.prems have "find_row record_id rows (Suc k) = Some i" by simp
    from Cons.IH [OF this] have "Suc k \<le> i" and "i - Suc k < length rows"
      and eq: "take (i - Suc k) (map col0 rows) @ drop (Suc (i - Suc k)) (map col0 rows)
       = remove1 record_id (map col0 rows)"
      by simp_all
    then have sub: "i - k = Suc (i - Suc k)" by simp
    from False \<open>Suc k \<le> i\<close> \<open>i - Suc k < length rows\<close> eq show ?thesis
      unfolding sub by simp
  qed
qed

lemma ids_of_delete_rows:
  assumes "2 \<le> i"
  shows "ids_of (delete_rows ws i) = take (i - 2) (ids_of ws) @ drop (Suc (i - 2)) (ids_of ws)"
proof (cases ws)
  case Nil
  then show ?thesis by (simp add: ids_of_raw delete_rows_def)
next
  case (Cons h rest)
  from assms obtain j where i: "i = Suc (Suc j)"
    by (metis Suc_le_D numeral_2_eq_2 Suc_le_mono)
  show ?thesis
    unfolding Cons i by (simp add: ids_of_raw delete_rows_def take_map drop_map)
qed

lemma delete_rows_nonempty: "ws \<noteq> [] \<Longrightarrow> 2 \<le> i \<Longrightarrow> delete_rows ws i \<noteq> []"
  by (cases ws) (auto simp: delete_rows_def)

lemma remove1_map_CInt: "remove1 (CInt k) (map CInt ns) = map CInt (remove1 k ns)"
  by (induction ns) auto

lemma display_row_col0: "display_row filename r = Inr d \<Longrightarrow> col0 d = col0 r"
  by (cases r) (auto simp: display_row_def col0_def split: if_splits)

lemma insert_rows_col0:
  "\<forall>t\<in>set (tree s). col0 t \<in> A \<Longrightarrow> \<forall>r\<in>set rs. col0 r \<in> A \<Longrightarrow>
   \<forall>t\<in>set (tree (snd (insert_rows filename rs s))). col0 t \<in> A"
proof (induction rs arbitrary: s)
  case Nil
  then show ?case by simp
next
  case (Cons r rs)
  show ?case
  proof (cases "display_row filename r")
    case (Inl e)
    with Cons.prems show ?thesis by simp
  next
    case (Inr d)
    then have "col0 d = col0 r" by (rule display_row_col0)
    with Cons.prems have "\<forall>t\<in>set (tree (s\<lparr>tree := tree s @ [d]\<rparr>)). col0 t \<in> A"
      by simp
    then have "\<forall>t\<in>set (tree (snd (insert_rows filename rs (s\<lparr>tree := tree s @ [d]\<rparr>)))). col0 t \<in> A"
      using Cons.prems(2) by (intro Cons.IH) simp_all
    with Inr show ?thesis by simp
  qed
qed

lemma load_data_col0:
  assumes "files s filename = Some f"
  shows "\<forall>t\<in>set (tree (snd (load_data filename s))). col0 t \<in> set (ids_of (content f))"
proof -
  have "\<forall>t\<in>set (tree (snd (insert_rows filename (iter_rows (content f)) (s\<lparr>tree := []\<rparr>)))).
      col0 t \<in> set (ids_of (content f))"
    by (rule insert_rows_col0) (simp_all add: ids_of_def)
  with assms show ?thesis
    by (simp add: load_data_def Let_def load_workbook_def)
qed

lemma length_le1_ids: "length ws \<le> 1 \<longleftrightarrow> ids_of ws = []"
  by (cases ws) (simp_all add: ids_of_raw)

lemma cell_value_last_row:
  "1 < length ws \<Longrightarrow> cell_value ws (length ws) 1 = last (ids_of ws)"
proof -
  assume l: "1 < length ws"
  then have ne: "ws \<noteq> []" and d: "drop 1 ws \<noteq> []" by auto
  have "last (ids_of ws) = col0 (last (drop 1 ws))"
    using d by (simp add: ids_of_raw last_map)
  also have "\<dots> = col0 (last ws)"
    using l by simp
  also have "\<dots> = cell_value ws (length ws) 1"
    using l ne by (cases "last ws") (simp_all add: cell_value_def col0_def last_conv_nth)
  finally show ?thesis by simp
qed

lemma new_id_for_ids:
  assumes "ids_of ws = map CInt ms" and "\<forall>m\<in>set ms. 0 \<le> m"
  shows "new_id_for ws = Inr (if ms = [] then 1 else last ms + 1)"
proof (cases "ms = []")
  case True
  with assms(1) have "length ws \<le> 1" using length_le1_ids [of ws] by simp
  with True show ?thesis by (simp add: new_id_for_cases)
next
  case False
  with assms(1) have "\<not> length ws \<le> 1" using length_le1_ids [of ws] by simp
  then have l: "1 < length ws" by simp
  have "cell_value ws (length ws) 1 = CInt (last ms)"
    unfolding cell_value_last_row [OF l] assms(1) using False by (simp add: last_map)
  moreover have "0 \<le> last ms" using False assms(2) by simp
  ultimately show ?thesis
    using False \<open>\<not> length ws \<le> 1\<close> by (simp add: new_id_for_cases)
qed

lemma iter_rows_empty_sheet: "iter_rows [] = []"
  by (simp add: iter_rows_def)

lemma remove1_keeps_last:
  "k \<in> set ns \<Longrightarrow> k \<noteq> last ns \<Longrightarrow> remove1 k ns \<noteq> [] \<and> last (remove1 k ns) = last ns"
proof (induction ns)
  case Nil
  then show ?case by simp
next
  case (Cons x xs)
  show ?case
  proof (cases "xs = []")
    case True
    with Cons.prems show ?thesis by simp
  next
    case False
    show ?thesis
    proof (cases "k = x")
      case True
      with False show ?thesis by simp
    next
      case k: False
      with Cons.prems False have "k \<in> set xs" and "k \<noteq> last xs" by simp_all
      from Cons.IH [OF this] k False show ?thesis by simp
    qed
  qed
qed

lemma strict_sorted_le_last:
  "sorted_wrt (<) ns \<Longrightarrow> x \<in> set ns \<Longrightarrow> (x :: int) \<le> last ns"
proof (induction ns)
  case Nil
  then show ?case by simp
next
  case (Cons y ys)
  show ?case
  proof (cases "ys = []")
    case True
    with Cons.prems show ?thesis by simp
  next
    case False
    then have l: "last ys \<in> set ys" by simp
    show ?thesis
    proof (cases "x = y")
      case True
      from Cons.prems(1) l have "y < last ys" by simp
      with True False show ?thesis by simp
    next
      case x: False
      with Cons.prems have "x \<in> set ys" and "sorted_wrt (<) ys" by simp_all
      from Cons.IH [OF this(2,1)] False show ?thesis by simp
    qed
  qed
qed

lemma delete_record_ids:
  assumes "files s filename = Some f" and "writable f"
  shows "\<exists>ws'. files (snd (delete_record filename (Some record_id) True s)) filename
        = Some (File ws' True)
     \<and> ids_of ws' = remove1 record_id (ids_of (content f))
     \<and> (content f \<noteq> [] \<longrightarrow> ws' \<noteq> [])"
proof (cases "find_row record_id (iter_rows (content f)) 2")
  case None
  then have "record_id \<notin> set (ids_of (content f))"
    by (simp add: find_row_None ids_of_def)
  then have "remove1 record_id (ids_of (content f)) = ids_of (content f)"
    by (rule remove1_idem)
  moreover have "f = File (content f) True"
    using assms(2) by (cases f) simp
  ultimately show ?thesis
    using delete_record_not_found [OF assms(1) None] assms(1) by auto
next
  case (Some i)
  from find_row_Some [OF Some] have i: "2 \<le> i"
    and eq: "take (i - 2) (ids_of (content f)) @ drop (Suc (i - 2)) (ids_of (content f))
       = remove1 record_id (ids_of (content f))"
    by (simp_all add: ids_of_def)
  have "ids_of (delete_rows (content f) i) = remove1 record_id (ids_of (content f))"
    using ids_of_delete_rows [OF i] eq by simp
  moreover have "content f \<noteq> [] \<longrightarrow> delete_rows (content f) i \<noteq> []"
    using i by (simp add: delete_rows_nonempty)
  ultimately show ?thesis
    using delete_record_files [OF assms Some] by auto
qed

lemma delete_then_list:
  assumes "files s filename = Some f" and "writable f" and "distinct (ids_of (content f))"
  shows "\<forall>r\<in>set (tree (snd (load_data filename
            (snd (delete_record filename (Some record_id) True s))))). col0 r \<noteq> record_id"
proof -
  from delete_record_ids [OF assms(1,2)]
  obtain ws' where f': "files (snd (delete_record filename (Some record_id) True s)) filename
        = Some (File ws' True)"
    and ids: "ids_of ws' = remove1 record_id (ids_of (content f))"
    by blast
  from assms(3) ids have "record_id \<notin> set (ids_of (content (File ws' True)))"
    by simp
  with load_data_col0 [OF f'] show ?thesis
    by auto
qed

lemma delete_then_create:
  assumes "files s filename = Some f" and "writable f"
    and "ids_of (content f) = map CInt ns" and "\<forall>n\<in>set ns. 0 \<le> n" and "k \<in> set ns"
    and "result \<noteq> []" and "filename = USERS_FILE \<longrightarrow> 2 \<le> length result"
  shows "\<exists>ws'. files (snd (add_record filename result
              (snd (delete_record filename (Some (CInt k)) True s)))) filename
            = Some (File ws' True)
     \<and> ids_of ws' = map CInt (remove1 k ns)
          @ [CInt (if remove1 k ns = [] then 1 else last (remove1 k ns) + 1)]"
proof -
  let ?s1 = "snd (delete_record filename (Some (CInt k)) True s)"
  let ?ms = "remove1 k ns"
  let ?n = "if ?ms = [] then 1 else last ?ms + 1"
  from assms(3,5) have "ids_of (content f) \<noteq> []" by auto
  then have ne: "content f \<noteq> []" by (auto simp: ids_of_raw)
  from delete_record_ids [OF assms(1,2)] ne
  obtain ws1 where f1: "files ?s1 filename = Some (File ws1 True)"
    and ids1: "ids_of ws1 = remove1 (CInt k) (ids_of (content f))" and ne1: "ws1 \<noteq> []"
    by blast
  from ids1 assms(3) have ids1': "ids_of ws1 = map CInt ?ms"
    by (simp add: remove1_map_CInt)
  have "\<forall>m\<in>set ?ms. 0 \<le> m"
    using assms(4) by (auto dest: notin_set_remove1 [of _ ns k])
  with ids1' have nid: "new_id_for (content (File ws1 True)) = Inr ?n"
    by (simp add: new_id_for_ids)
  from add_record_appends [OF f1 _ nid assms(6,7)]
  obtain row where "files (snd (add_record filename result ?s1))
     = (files ?s1)(filename \<mapsto> File (content (File ws1 True) @ [CInt ?n # row]) True)"
    by auto
  then have "files (snd (add_record filename result ?s1)) filename
     = Some (File (ws1 @ [CInt ?n # row]) True)"
    by simp
  moreover have "ids_of (ws1 @ [CInt ?n # row]) = map CInt ?ms @ [CInt ?n]"
    using ne1 ids1' by (simp add: ids_of_snoc col0_def)
  ultimately show ?thesis by blast
qed

lemma deleted_id_not_reused:
  assumes "sorted_wrt (<) ns" and "k \<in> set ns" and "k \<noteq> last ns"
  shows "CInt k \<notin> set (map CInt (remove1 k ns)
          @ [CInt (if remove1 k ns = [] then 1 else last (remove1 k ns) + 1)])"
proof -
  from assms(1) have d: "distinct ns" by (simp add: strict_sorted_iff)
  from remove1_keeps_last [OF assms(2,3)]
  have ne: "remove1 k ns \<noteq> []" and l: "last (remove1 k ns) = last ns" by simp_all
  from strict_sorted_le_last [OF assms(1,2)] assms(3) have "k < last ns" by simp
  with d ne l show ?thesis by auto
qed

text \<open>
  Claim C5, as amended. After \<^verbatim>\<open>delete_record\<close> on a writable sheet whose identifiers
  are distinct, \<^verbatim>\<open>load_data\<close> shows no line with the deleted identifier. The record
  added next gets one more than the identifier of the last row left (1 when none is
  left): where the identifiers increase along the rows, the deleted identifier is not in
  the sheet after that create when the deleted row was not the last one. When it was the
  last one, the identifier can be assigned again: see the counterexample below.
\<close>

theorem delete_then_list_and_create:
  assumes "files s filename = Some f" and "writable f"
  shows "(distinct (ids_of (content f)) \<longrightarrow>
       (\<forall>r\<in>set (tree (snd (load_data filename
            (snd (delete_record filename (Some record_id) True s))))). col0 r \<noteq> record_id))
   \<and> (ids_of (content f) = map CInt ns \<and> (\<forall>n\<in>set ns. 0 \<le> n) \<and> k \<in> set ns
        \<and> result \<noteq> [] \<and> (filename = USERS_FILE \<longrightarrow> 2 \<le> length result) \<longrightarrow>
       (\<exists>ws'. files (snd (add_record filename result
              (snd (delete_record filename (Some (CInt k)) True s)))) filename
            = Some (File ws' True)
         \<and> ids_of ws' = map CInt (remove1 k ns)
              @ [CInt (if remove1 k ns = [] then 1 else last (remove1 k ns) + 1)]
         \<and> (sorted_wrt (<) ns \<and> k \<noteq> last ns \<longrightarrow> CInt k \<notin> set (ids_of ws'))))"
proof (intro conjI impI)
  assume "distinct (ids_of (content f))"
  with assms show "\<forall>r\<in>set (tree (snd (load_data filename
            (snd (delete_record filename (Some record_id) True s))))). col0 r \<noteq> record_id"
    by (rule delete_then_list)
next
  assume a: "ids_of (content f) = map CInt ns \<and> (\<forall>n\<in>set ns. 0 \<le> n) \<and> k \<in> set ns
        \<and> result \<noteq> [] \<and> (filename = USERS_FILE \<longrightarrow> 2 \<le> length result)"
  then have "\<exists>ws'. files (snd (add_record filename result
              (snd (delete_record filename (Some (CInt k)) True s)))) filename
            = Some (File ws' True)
     \<and> ids_of ws' = map CInt (remove1 k ns)
          @ [CInt (if remove1 k ns = [] then 1 else last (remove1 k ns) + 1)]"
    by (intro delete_then_create [OF assms]) simp_all
  then obtain ws' where f': "files (snd (add_record filename result
              (snd (delete_record filename (Some (CInt k)) True s)))) filename
            = Some (File ws' True)"
    and ids: "ids_of ws' = map CInt (remove1 k ns)
          @ [CInt (if remove1 k ns = [] then 1 else last (remove1 k ns) + 1)]"
    by blast
  have "sorted_wrt (<) ns \<and> k \<noteq> last ns \<longrightarrow> CInt k \<notin> set (ids_of ws')"
    unfolding ids using a by (auto dest: deleted_id_not_reused)
  with f' ids show "\<exists>ws'. files (snd (add_record filename result
              (snd (delete_record filename (Some (CInt k)) True s)))) filename
            = Some (File ws' True)
         \<and> ids_of ws' = map CInt (remove1 k ns)
              @ [CInt (if remove1 k ns = [] then 1 else last (remove1 k ns) + 1)]
         \<and> (sorted_wrt (<) ns \<and> k \<noteq> last ns \<longrightarrow> CInt k \<notin> set (ids_of ws'))"
    by blast
qed

theorem delete_then_list_and_create_witness:
  "CInt 2 \<notin> col0 ` set (tree (snd (load_data VISITORS_FILE
       (snd (delete_record VISITORS_FILE (Some (CInt 2)) True
          \<lparr>files = [VISITORS_FILE \<mapsto> File [[CStr ''ID'', CStr ''Nome''], [CInt 1, CStr ''Ana''],
             [CInt 2, CStr ''Rui''], [CInt 3, CStr ''Eva'']] True], tree = [], shown = []\<rparr>)))))
   \<and> (\<exists>ws'. files (snd (add_record VISITORS_FILE [''Lia'']
       (snd (delete_record VISITORS_FILE (Some (CInt 2)) True
          \<lparr>files = [VISITORS_FILE \<mapsto> File [[CStr ''ID'', CStr ''Nome''], [CInt 1, CStr ''Ana''],
             [CInt 2, CStr ''Rui''], [CInt 3, CStr ''Eva'']] True], tree = [], shown = []\<rparr>))))
         VISITORS_FILE = Some (File ws' True)
       \<and> ids_of ws' = [CInt 1, CInt 3, CInt 4] \<and> CInt 2 \<notin> set (ids_of ws'))"
proof -
  let ?f = "File [[CStr ''ID'', CStr ''Nome''], [CInt 1, CStr ''Ana''],
             [CInt 2, CStr ''Rui''], [CInt 3, CStr ''Eva'']] True"
  let ?s = "\<lparr>files = [VISITORS_FILE \<mapsto> ?f], tree = [], shown = []\<rparr>"
  have u: "files ?s VISITORS_FILE = Some ?f"
    by simp
  have w: "writable ?f"
    by simp
  have ids: "ids_of (content ?f) = map CInt [1, 2, 3]"
    by (simp add: ids_of_raw col0_def)
  note t = delete_then_list_and_create [OF u w, where record_id = "CInt 2" and ns = "[1, 2, 3]"
      and k = 2 and result = "[''Lia'']"]
  from t have "\<forall>r\<in>set (tree (snd (load_data VISITORS_FILE
       (snd (delete_record VISITORS_FILE (Some (CInt 2)) True ?s))))). col0 r \<noteq> CInt 2"
    using ids by simp
  then have one: "CInt 2 \<notin> col0 ` set (tree (snd (load_data VISITORS_FILE
       (snd (delete_record VISITORS_FILE (Some (CInt 2)) True ?s)))))"
    by auto
  from t ids have two: "\<exists>ws'. files (snd (add_record VISITORS_FILE [''Lia'']
       (snd (delete_record VISITORS_FILE (Some (CInt 2)) True ?s)))) VISITORS_FILE
         = Some (File ws' True)
       \<and> ids_of ws' = [CInt 1, CInt 3, CInt 4] \<and> CInt 2 \<notin> set (ids_of ws')"
    by (simp add: VISITORS_FILE_def USERS_FILE_def)
  from one two show ?thesis by simp
qed

text \<open>
  Counterexample to claim C5 as stated: with the records 1 and 2 in the sheet, deleting
  record 2 and adding a record gives the new record the identifier 2 again.
\<close>

theorem deleted_identifier_is_reused:
  "files (snd (add_record VISITORS_FILE [''Eva'']
       (snd (delete_record VISITORS_FILE (Some (CInt 2)) True
          \<lparr>files = [VISITORS_FILE \<mapsto> File [[CStr ''ID'', CStr ''Nome''], [CInt 1, CStr ''Ana''],
             [CInt 2, CStr ''Rui'']] True], tree = [], shown = []\<rparr>))))
   = [VISITORS_FILE \<mapsto> File [[CStr ''ID'', CStr ''Nome''], [CInt 1, CStr ''Ana''],
             [CInt 2, CStr ''Eva'']] True]"
proof -
  let ?f = "File [[CStr ''ID'', CStr ''Nome''], [CInt 1, CStr ''Ana''], [CInt 2, CStr ''Rui'']] True"
  let ?s = "\<lparr>files = [VISITORS_FILE \<mapsto> ?f], tree = [], shown = []\<rparr>"
  let ?s1 = "snd (delete_record VISITORS_FILE (Some (CInt 2)) True ?s)"
  let ?f1 = "File [[CStr ''ID'', CStr ''Nome''], [CInt 1, CStr ''Ana'']] True"
  have u: "files ?s VISITORS_FILE = Some ?f"
    by simp
  have w: "writable ?f"
    by simp
  have i: "find_row (CInt 2) (iter_rows (content ?f)) 2 = Some 3"
    by (simp add: iter_rows_def max_column_def pad_row_def col0_def)
  have d: "delete_rows (content ?f) 3 = content ?f1"
    by (simp add: delete_rows_def)
  have "files ?s1 = (files ?s)(VISITORS_FILE \<mapsto> File (delete_rows (content ?f) 3) True)"
    by (rule delete_record_files [OF u w i])
  then have s1: "files ?s1 = [VISITORS_FILE \<mapsto> ?f1]"
    unfolding d by simp
  then have u1: "files ?s1 VISITORS_FILE = Some ?f1"
    by simp
  have w1: "writable ?f1"
    by simp
  have n: "new_id_for (content ?f1) = Inr 2"
    by (simp add: new_id_for_cases cell_value_def)
  have r: "new_row_for VISITORS_FILE 2 [''Eva''] = Inr [CInt 2, CStr ''Eva'']"
    by (simp add: new_row_for_def VISITORS_FILE_def USERS_FILE_def)
  show ?thesis
    using add_record_files [OF u1 w1 n r] s1 by simp
qed

end
